theory Spec2Isabelle
  imports Complex_Main "HOL-Library.Log_Nat"
begin

section \<open>Environment configuration (config/environment.ts)\<close>

text \<open>
  The interface \<open>EnvironmentConfig\<close> with its nested object types. Every number
  written in the configuration literals is a small non-negative integer, so the numeric
  fields are naturals; the string-literal unions (\<open>environment\<close>, \<open>billingMode\<close>) stay
  strings, because the stacks compare them with \<open>===\<close> against string literals.
\<close>

record CognitoConfig =
  userPoolName :: string
  allowedCallbackURLs :: "string list"
  allowedLogoutURLs :: "string list"

record DynamodbConfig =
  tableName :: string
  billingMode :: string

record S3Config =
  audioBucketName :: string
  lifecycleDays :: nat

record ApiConfig =
  throttleRateLimit :: nat
  throttleBurstLimit :: nat

record LambdaConfig =
  memorySize :: nat
  timeout :: nat
  runtime :: string

record MonitoringConfig =
  enableXRay :: bool
  logRetentionDays :: nat
  alarmEmail :: "string option"

record EnvironmentConfig =
  account :: "string option"
  region :: string
  environment :: string
  appName :: string
  stackPrefix :: string
  cognito :: CognitoConfig
  dynamodb :: DynamodbConfig
  s3 :: S3Config
  api :: ApiConfig
  lambda :: LambdaConfig
  monitoring :: MonitoringConfig

definition development :: EnvironmentConfig where
  "development = \<lparr>
     account = None,
     region = ''us-east-1'',
     environment = ''development'',
     appName = ''readafull'',
     stackPrefix = ''Readafull-Dev'',
     cognito = \<lparr> userPoolName = ''readafull-users-dev'',
       allowedCallbackURLs = [''http://localhost:3000/auth/callback''],
       allowedLogoutURLs = [''http://localhost:3000/''] \<rparr>,
     dynamodb = \<lparr> tableName = ''readafull-main-table-dev'', billingMode = ''PAY_PER_REQUEST'' \<rparr>,
     s3 = \<lparr> audioBucketName = ''readafull-audio-storage-dev'', lifecycleDays = 30 \<rparr>,
     api = \<lparr> throttleRateLimit = 100, throttleBurstLimit = 200 \<rparr>,
     lambda = \<lparr> memorySize = 512, timeout = 30, runtime = ''nodejs18.x'' \<rparr>,
     monitoring = \<lparr> enableXRay = True, logRetentionDays = 7, alarmEmail = None \<rparr> \<rparr>"

definition staging :: EnvironmentConfig where
  "staging = \<lparr>
     account = None,
     region = ''us-east-1'',
     environment = ''staging'',
     appName = ''readafull'',
     stackPrefix = ''Readafull-Staging'',
     cognito = \<lparr> userPoolName = ''readafull-users-staging'',
       allowedCallbackURLs = [''https://staging.readafull.com/auth/callback''],
       allowedLogoutURLs = [''https://staging.readafull.com/''] \<rparr>,
     dynamodb = \<lparr> tableName = ''readafull-main-table-staging'', billingMode = ''PAY_PER_REQUEST'' \<rparr>,
     s3 = \<lparr> audioBucketName = ''readafull-audio-storage-staging'', lifecycleDays = 60 \<rparr>,
     api = \<lparr> throttleRateLimit = 500, throttleBurstLimit = 1000 \<rparr>,
     lambda = \<lparr> memorySize = 1024, timeout = 60, runtime = ''nodejs18.x'' \<rparr>,
     monitoring = \<lparr> enableXRay = True, logRetentionDays = 14, alarmEmail = None \<rparr> \<rparr>"

definition production :: EnvironmentConfig where
  "production = \<lparr>
     account = None,
     region = ''us-east-1'',
     environment = ''production'',
     appName = ''readafull'',
     stackPrefix = ''Readafull-Prod'',
     cognito = \<lparr> userPoolName = ''readafull-users-prod'',
       allowedCallbackURLs = [''https://readafull.com/auth/callback''],
       allowedLogoutURLs = [''https://readafull.com/''] \<rparr>,
     dynamodb = \<lparr> tableName = ''readafull-main-table-prod'', billingMode = ''PAY_PER_REQUEST'' \<rparr>,
     s3 = \<lparr> audioBucketName = ''readafull-audio-storage-prod'', lifecycleDays = 90 \<rparr>,
     api = \<lparr> throttleRateLimit = 1000, throttleBurstLimit = 2000 \<rparr>,
     lambda = \<lparr> memorySize = 1024, timeout = 60, runtime = ''nodejs18.x'' \<rparr>,
     monitoring = \<lparr> enableXRay = True, logRetentionDays = 30,
       alarmEmail = Some ''alerts@readafull.com'' \<rparr> \<rparr>"

text \<open>
  The object literal \<open>configs\<close>: its own properties, in the order they are written.
\<close>

definition configs :: "(string \<times> EnvironmentConfig) list" where
  "configs = [(''development'', development), (''staging'', staging), (''production'', production)]"

subsection \<open>Property lookup on an object literal\<close>

text \<open>
  \<open>configs[env]\<close> is JavaScript property access with a computed key on an ordinary
  object. It finds the object's own property of that name and otherwise goes on to the
  prototype, which for an object literal is \<open>Object.prototype\<close>. The names below are the
  properties \<open>Object.prototype\<close> carries in Node.js; each holds a function (or, for
  \<open>__proto__\<close>, the prototype object itself), so each is truthy. A key found nowhere
  yields \<open>undefined\<close>.
\<close>

definition ObjectPrototype :: "string list" where
  "ObjectPrototype =
     [''constructor'', ''__defineGetter__'', ''__defineSetter__'', ''hasOwnProperty'',
      ''__lookupGetter__'', ''__lookupSetter__'', ''isPrototypeOf'', ''propertyIsEnumerable'',
      ''toString'', ''valueOf'', ''__proto__'', ''toLocaleString'']"

datatype 'a lookup =
    Own 'a              \<comment> \<open>the value of an own property\<close>
  | Inherited string    \<comment> \<open>the member of \<open>Object.prototype\<close> of that name\<close>
  | Undefined

definition getProperty :: "(string \<times> 'a) list \<Rightarrow> string \<Rightarrow> 'a lookup" where
  "getProperty obj key =
     (case map_of obj key of
        Some v \<Rightarrow> Own v
      | None \<Rightarrow> if key \<in> set ObjectPrototype then Inherited key else Undefined)"

text \<open>
  \<open>a || b\<close> on the result of a lookup: \<open>undefined\<close> is falsy, the members of
  \<open>Object.prototype\<close> are truthy, and an own value is judged by \<open>truthy\<close>, which
  depends on what the object stores (a configuration record is an object, so truthy).
\<close>

definition orElse :: "('a \<Rightarrow> bool) \<Rightarrow> 'a lookup \<Rightarrow> 'a lookup \<Rightarrow> 'a lookup" where
  "orElse truthy a b =
     (case a of
        Own v \<Rightarrow> if truthy v then a else b
      | Inherited k \<Rightarrow> a
      | Undefined \<Rightarrow> b)"

definition isObject :: "EnvironmentConfig \<Rightarrow> bool" where
  "isObject c = True"

text \<open>
  \<open>getEnvironmentConfig\<close>: \<open>environment || 'development'\<close> replaces the empty string
  (the only falsy string), then \<open>configs[env] || configs.development\<close>. The result is
  what the function hands back at run time: a configuration record (\<open>Own\<close>), or the
  built-in found on the prototype (\<open>Inherited\<close>), which the declared return type
  \<open>EnvironmentConfig\<close> does not exclude.
\<close>

definition getEnvironmentConfig :: "string \<Rightarrow> EnvironmentConfig lookup" where
  "getEnvironmentConfig environment' =
     (let env = (if environment' = [] then ''development'' else environment')
      in orElse isObject (getProperty configs env) (getProperty configs ''development''))"

section \<open>JavaScript numbers and template literals\<close>

text \<open>
  A JavaScript number is an IEEE 754 double. \<open>float64 x\<close> is the double nearest to the
  rational \<open>x\<close> (53 significant bits, ties to the even significand), for magnitudes in
  the normal range of doubles; every number computed by the stacks lies far inside it.
  \<open>binade x\<close> is the exponent \<open>e\<close> with \<open>2^e \<le> x < 2^(e+1)\<close> for positive \<open>x\<close>.
\<close>

definition roundHalfEven :: "rat \<Rightarrow> int" where
  "roundHalfEven x =
     (let f = \<lfloor>x\<rfloor>; r = x - of_int f
      in if r < 1 / 2 then f else if 1 / 2 < r then f + 1 else if even f then f else f + 1)"

definition binade :: "rat \<Rightarrow> int" where
  "binade x =
     (if 1 \<le> x then int (floorlog 2 (nat \<lfloor>x\<rfloor>)) - 1
      else - int (floorlog 2 (nat (\<lceil>1 / x\<rceil> - 1))))"

definition pow2 :: "int \<Rightarrow> rat" where
  "pow2 e = (if 0 \<le> e then 2 ^ nat e else 1 / 2 ^ nat (- e))"

definition float64 :: "rat \<Rightarrow> rat" where
  "float64 x =
     (if x = 0 then 0
      else let ulp = pow2 (binade \<bar>x\<bar> - 52)
           in sgn x * of_int (roundHalfEven (\<bar>x\<bar> / ulp)) * ulp)"

text \<open>The product \<open>a * b\<close> of two doubles: the exact product, rounded once.\<close>

definition times :: "rat \<Rightarrow> rat \<Rightarrow> rat" where
  "times a b = float64 (a * b)"

text \<open>
  \<open>`${n}`\<close> for a non-negative integer below \<open>10^21\<close>: its decimal digits.
\<close>

fun toString :: "nat \<Rightarrow> string" where
  "toString n =
     (if n < 10 then [''0123456789'' ! n]
      else toString (n div 10) @ [''0123456789'' ! (n mod 10)])"

declare toString.simps [simp del]

section \<open>The CDK values the stacks use\<close>

text \<open>
  The enumerations of \<open>aws-cdk-lib\<close> from which the stacks pick a member.
\<close>

datatype RemovalPolicy = DESTROY | RETAIN | SNAPSHOT | RETAIN_ON_UPDATE_OR_DELETE

datatype Duration = Duration_days nat | Duration_minutes nat

datatype AttributeType = BINARY | NUMBER | STRING

datatype BillingMode = PAY_PER_REQUEST | PROVISIONED

datatype TableEncryption = TableEncryption_DEFAULT | CUSTOMER_MANAGED | AWS_MANAGED

datatype ProjectionType = KEYS_ONLY | ProjectionType_INCLUDE | ProjectionType_ALL

datatype BucketEncryption = UNENCRYPTED | KMS_MANAGED | S3_MANAGED | KMS | DSSE_MANAGED | DSSE

datatype BlockPublicAccess = BLOCK_ALL | BLOCK_ACLS

datatype StorageClass =
    INFREQUENT_ACCESS | ONE_ZONE_INFREQUENT_ACCESS | GLACIER | GLACIER_INSTANT_RETRIEVAL
  | DEEP_ARCHIVE | INTELLIGENT_TIERING

datatype HttpMethods = GET | PUT | HEAD | POST | DELETE

datatype ComparisonOperator =
    GREATER_THAN_OR_EQUAL_TO_THRESHOLD | GREATER_THAN_THRESHOLD
  | LESS_THAN_THRESHOLD | LESS_THAN_OR_EQUAL_TO_THRESHOLD

datatype TreatMissingData = BREACHING | NOT_BREACHING | IGNORE | MISSING

text \<open>
  A stack output's value is a reference to an attribute of a declared construct, or a
  template literal mixing text with such references.
\<close>

datatype Fragment = Text string | Attr string string

record CfnOutput =
  output_id :: string
  output_value :: "Fragment list"
  output_description :: string
  exportName :: string

record StackProps =
  env_account :: "string option"
  env_region :: string
  tags :: "(string \<times> string) list"

section \<open>Storage stack (lib/storage-stack.ts)\<close>

record Attribute =
  attr_name :: string
  attr_type :: AttributeType

record GlobalSecondaryIndex =
  indexName :: string
  gsi_partitionKey :: Attribute
  gsi_sortKey :: Attribute
  projectionType :: ProjectionType

record Table =
  table_id :: string
  table_tableName :: string
  table_partitionKey :: Attribute
  table_sortKey :: Attribute
  table_billingMode :: BillingMode
  table_encryption :: TableEncryption
  pointInTimeRecovery :: bool
  table_removalPolicy :: RemovalPolicy
  globalSecondaryIndexes :: "GlobalSecondaryIndex list"

record Transition =
  storageClass :: StorageClass
  transitionAfter :: Duration

record LifecycleRule =
  rule_id :: string
  enabled :: bool
  expiration :: Duration
  transitions :: "Transition list"

record CorsRule =
  allowedMethods :: "HttpMethods list"
  allowedOrigins :: "string list"
  allowedHeaders :: "string list"
  maxAge :: nat

record Bucket =
  bucket_id :: string
  bucket_bucketName :: string
  bucket_encryption :: BucketEncryption
  blockPublicAccess :: BlockPublicAccess
  versioned :: bool
  lifecycleRules :: "LifecycleRule list"
  cors :: "CorsRule list"
  bucket_removalPolicy :: RemovalPolicy
  autoDeleteObjects :: bool

record StorageStack =
  storage_id :: string
  storage_props :: "StackProps option"
  mainTable :: Table
  audioBucket :: Bucket
  storage_outputs :: "CfnOutput list"

definition addGlobalSecondaryIndex :: "GlobalSecondaryIndex \<Rightarrow> Table \<Rightarrow> Table" where
  "addGlobalSecondaryIndex gsi t =
     t\<lparr>globalSecondaryIndexes := globalSecondaryIndexes t @ [gsi]\<rparr>"

definition newMainTable :: "EnvironmentConfig \<Rightarrow> Table" where
  "newMainTable config = \<lparr>
     table_id = ''MainTable'',
     table_tableName = tableName (dynamodb config),
     table_partitionKey = \<lparr> attr_name = ''PK'', attr_type = STRING \<rparr>,
     table_sortKey = \<lparr> attr_name = ''SK'', attr_type = STRING \<rparr>,
     table_billingMode =
       (if billingMode (dynamodb config) = ''PAY_PER_REQUEST'' then PAY_PER_REQUEST
        else PROVISIONED),
     table_encryption = AWS_MANAGED,
     pointInTimeRecovery = (environment config = ''production''),
     table_removalPolicy = (if environment config = ''production'' then RETAIN else DESTROY),
     globalSecondaryIndexes = [] \<rparr>"

definition newAudioBucket :: "EnvironmentConfig \<Rightarrow> Bucket" where
  "newAudioBucket config = \<lparr>
     bucket_id = ''AudioBucket'',
     bucket_bucketName = audioBucketName (s3 config),
     bucket_encryption = S3_MANAGED,
     blockPublicAccess = BLOCK_ALL,
     versioned = False,
     lifecycleRules =
       [\<lparr> rule_id = ''DeleteOldAudioFiles'',
          enabled = True,
          expiration = Duration_days (lifecycleDays (s3 config)),
          transitions =
            [\<lparr> storageClass = INTELLIGENT_TIERING, transitionAfter = Duration_days 30 \<rparr>] \<rparr>],
     cors =
       [\<lparr> allowedMethods = [GET, PUT, POST, DELETE],
          allowedOrigins = [''*''],
          allowedHeaders = [''*''],
          maxAge = 3000 \<rparr>],
     bucket_removalPolicy = (if environment config = ''production'' then RETAIN else DESTROY),
     autoDeleteObjects = (environment config \<noteq> ''production'') \<rparr>"

definition GSI1 :: GlobalSecondaryIndex where
  "GSI1 = \<lparr>
     indexName = ''GSI1'',
     gsi_partitionKey = \<lparr> attr_name = ''GSI1PK'', attr_type = STRING \<rparr>,
     gsi_sortKey = \<lparr> attr_name = ''GSI1SK'', attr_type = STRING \<rparr>,
     projectionType = ProjectionType_ALL \<rparr>"

definition newStorageStack ::
  "string \<Rightarrow> EnvironmentConfig \<Rightarrow> StackProps option \<Rightarrow> StorageStack" where
  "newStorageStack id' config props = \<lparr>
     storage_id = id',
     storage_props = props,
     mainTable = addGlobalSecondaryIndex GSI1 (newMainTable config),
     audioBucket = newAudioBucket config,
     storage_outputs =
       [\<lparr> output_id = ''MainTableName'', output_value = [Attr ''MainTable'' ''tableName''],
          output_description = ''DynamoDB Main Table Name'',
          exportName = stackPrefix config @ ''-MainTableName'' \<rparr>,
        \<lparr> output_id = ''MainTableArn'', output_value = [Attr ''MainTable'' ''tableArn''],
          output_description = ''DynamoDB Main Table ARN'',
          exportName = stackPrefix config @ ''-MainTableArn'' \<rparr>,
        \<lparr> output_id = ''AudioBucketName'', output_value = [Attr ''AudioBucket'' ''bucketName''],
          output_description = ''S3 Audio Bucket Name'',
          exportName = stackPrefix config @ ''-AudioBucketName'' \<rparr>,
        \<lparr> output_id = ''AudioBucketArn'', output_value = [Attr ''AudioBucket'' ''bucketArn''],
          output_description = ''S3 Audio Bucket ARN'',
          exportName = stackPrefix config @ ''-AudioBucketArn'' \<rparr>] \<rparr>"

section \<open>Monitoring stack (lib/monitoring-stack.ts)\<close>

text \<open>
  What the stack reads of a \<open>lambda.Function\<close>: the id of its construct node and its
  function name. Its metric methods give metrics of the namespace \<open>AWS/Lambda\<close> with
  the function name as the only dimension.
\<close>

record LambdaFunction =
  node_id :: string
  functionName :: string

record Metric =
  namespace :: string
  metricName :: string
  dimensionsMap :: "(string \<times> string) list"
  statistic :: string
  period :: Duration

definition lambdaMetric :: "string \<Rightarrow> LambdaFunction \<Rightarrow> string \<Rightarrow> Duration \<Rightarrow> Metric" where
  "lambdaMetric name fn stat per = \<lparr>
     namespace = ''AWS/Lambda'',
     metricName = name,
     dimensionsMap = [(''FunctionName'', functionName fn)],
     statistic = stat,
     period = per \<rparr>"

definition metricErrors :: "LambdaFunction \<Rightarrow> string \<Rightarrow> Duration \<Rightarrow> Metric" where
  "metricErrors = lambdaMetric ''Errors''"

definition metricThrottles :: "LambdaFunction \<Rightarrow> string \<Rightarrow> Duration \<Rightarrow> Metric" where
  "metricThrottles = lambdaMetric ''Throttles''"

definition metricDuration :: "LambdaFunction \<Rightarrow> string \<Rightarrow> Duration \<Rightarrow> Metric" where
  "metricDuration = lambdaMetric ''Duration''"

definition metricInvocations :: "LambdaFunction \<Rightarrow> string \<Rightarrow> Duration \<Rightarrow> Metric" where
  "metricInvocations = lambdaMetric ''Invocations''"

datatype Subscription = EmailSubscription string

record Topic =
  topic_id :: string
  topicName :: string
  displayName :: string
  subscriptions :: "Subscription list"

definition addSubscription :: "Subscription \<Rightarrow> Topic \<Rightarrow> Topic" where
  "addSubscription sub t = t\<lparr>subscriptions := subscriptions t @ [sub]\<rparr>"

text \<open>An alarm action names the topic it notifies by the topic's construct id.\<close>

datatype AlarmAction = SnsAction string

record Alarm =
  alarm_id :: string
  alarmName :: string
  metric :: Metric
  threshold :: rat
  evaluationPeriods :: nat
  comparisonOperator :: ComparisonOperator
  treatMissingData :: TreatMissingData
  alarmActions :: "AlarmAction list"

definition addAlarmAction :: "AlarmAction \<Rightarrow> Alarm \<Rightarrow> Alarm" where
  "addAlarmAction act a = a\<lparr>alarmActions := alarmActions a @ [act]\<rparr>"

record GraphWidget =
  title :: string
  left :: "Metric list"
  right :: "Metric list"
  width :: nat
  height :: nat

record Dashboard =
  dashboard_id :: string
  dashboardName :: string
  widgets :: "GraphWidget list list"

definition addWidgets :: "GraphWidget list \<Rightarrow> Dashboard \<Rightarrow> Dashboard" where
  "addWidgets row d = d\<lparr>widgets := widgets d @ [row]\<rparr>"

subsection \<open>The enum \<open>logs.RetentionDays\<close>\<close>

text \<open>
  \<open>logs.RetentionDays\<close> is a numeric TypeScript enum declared by the library
  \<open>aws-cdk-lib\<close> (module \<open>aws-logs\<close>), not by this repository; the stack only indexes
  it. The members below are the library's declaration: each tier has a worded name and
  its number of days as value. At run time a numeric enum is an object with, for every
  member, the property \<open>name \<mapsto> value\<close> and the reverse property \<open>`${value}` \<mapsto> name\<close>;
  \<open>enumObject\<close> builds that object. The lookup of the stack, \<open>retentionFor\<close>, takes the
  enum object as an argument.
\<close>

datatype EnumValue = Num nat | Name string

definition enumObject :: "(string \<times> nat) list \<Rightarrow> (string \<times> EnumValue) list" where
  "enumObject members = concat (map (\<lambda>(n, v). [(n, Num v), (toString v, Name n)]) members)"

definition RetentionDays_members :: "(string \<times> nat) list" where
  "RetentionDays_members =
     [(''ONE_DAY'', 1), (''THREE_DAYS'', 3), (''FIVE_DAYS'', 5), (''ONE_WEEK'', 7),
      (''TWO_WEEKS'', 14), (''ONE_MONTH'', 30), (''TWO_MONTHS'', 60), (''THREE_MONTHS'', 90),
      (''FOUR_MONTHS'', 120), (''FIVE_MONTHS'', 150), (''SIX_MONTHS'', 180), (''ONE_YEAR'', 365),
      (''THIRTEEN_MONTHS'', 400), (''EIGHTEEN_MONTHS'', 545), (''TWO_YEARS'', 731),
      (''THREE_YEARS'', 1096), (''FIVE_YEARS'', 1827), (''SIX_YEARS'', 2192),
      (''SEVEN_YEARS'', 2557), (''EIGHT_YEARS'', 2922), (''NINE_YEARS'', 3288),
      (''TEN_YEARS'', 3653), (''INFINITE'', 9999)]"

definition RetentionDays :: "(string \<times> EnumValue) list" where
  "RetentionDays = enumObject RetentionDays_members"

text \<open>A number is truthy unless it is zero, a string unless it is empty.\<close>

fun truthyEnum :: "EnumValue \<Rightarrow> bool" where
  "truthyEnum (Num n) = (n \<noteq> 0)"
| "truthyEnum (Name s) = (s \<noteq> [])"

text \<open>
  \<open>logs.RetentionDays[`DAYS_${days}`] || logs.RetentionDays.ONE_WEEK\<close>
\<close>

definition retentionFor :: "(string \<times> EnumValue) list \<Rightarrow> nat \<Rightarrow> EnumValue lookup" where
  "retentionFor retentionDays days =
     orElse truthyEnum
       (getProperty retentionDays (''DAYS_'' @ toString days))
       (getProperty retentionDays ''ONE_WEEK'')"

record LogGroup =
  logGroup_id :: string
  logGroupName :: string
  retention :: "EnumValue lookup"
  logGroup_removalPolicy :: RemovalPolicy

subsection \<open>The constructor\<close>

record MonitoringStack =
  monitoring_id :: string
  monitoring_props :: "StackProps option"
  alarmTopic :: Topic
  dashboard :: Dashboard
  logGroups :: "LogGroup list"
  alarms :: "Alarm list"
  monitoring_outputs :: "CfnOutput list"

text \<open>The body of the first \<open>forEach\<close>: one log group for the function.\<close>

definition declareLogGroup ::
  "EnvironmentConfig \<Rightarrow> LambdaFunction \<Rightarrow> MonitoringStack \<Rightarrow> MonitoringStack" where
  "declareLogGroup config fn st =
     st\<lparr>logGroups := logGroups st @
       [\<lparr> logGroup_id = node_id fn @ ''LogGroup'',
          logGroupName = ''/aws/lambda/'' @ functionName fn,
          retention = retentionFor RetentionDays (logRetentionDays (monitoring config)),
          logGroup_removalPolicy = DESTROY \<rparr>]\<rparr>"

text \<open>
  \<open>config.lambda.timeout * 1000 * 0.8\<close>, evaluated left to right in doubles; the
  literal \<open>0.8\<close> denotes the double nearest to four fifths.
\<close>

definition durationThreshold :: "EnvironmentConfig \<Rightarrow> rat" where
  "durationThreshold config =
     times (times (float64 (of_nat (timeout (lambda config)))) (float64 1000)) (float64 (8 / 10))"

text \<open>
  The constants of the body of the second \<open>forEach\<close>, as functions of the
  configuration, the alarm topic and the function at hand: the three alarms, each after
  its \<open>addAlarmAction\<close> with the alarm topic, and the function's widget.
\<close>

definition errorAlarm :: "EnvironmentConfig \<Rightarrow> Topic \<Rightarrow> LambdaFunction \<Rightarrow> Alarm" where
  "errorAlarm config topic fn =
     addAlarmAction (SnsAction (topic_id topic))
       \<lparr> alarm_id = node_id fn @ ''ErrorAlarm'',
         alarmName = stackPrefix config @ ''-'' @ functionName fn @ ''-errors'',
         metric = metricErrors fn ''Sum'' (Duration_minutes 5),
         threshold = 10,
         evaluationPeriods = 2,
         comparisonOperator = GREATER_THAN_THRESHOLD,
         treatMissingData = NOT_BREACHING,
         alarmActions = [] \<rparr>"

definition throttleAlarm :: "EnvironmentConfig \<Rightarrow> Topic \<Rightarrow> LambdaFunction \<Rightarrow> Alarm" where
  "throttleAlarm config topic fn =
     addAlarmAction (SnsAction (topic_id topic))
       \<lparr> alarm_id = node_id fn @ ''ThrottleAlarm'',
         alarmName = stackPrefix config @ ''-'' @ functionName fn @ ''-throttles'',
         metric = metricThrottles fn ''Sum'' (Duration_minutes 5),
         threshold = 5,
         evaluationPeriods = 2,
         comparisonOperator = GREATER_THAN_THRESHOLD,
         treatMissingData = NOT_BREACHING,
         alarmActions = [] \<rparr>"

definition durationAlarm :: "EnvironmentConfig \<Rightarrow> Topic \<Rightarrow> LambdaFunction \<Rightarrow> Alarm" where
  "durationAlarm config topic fn =
     addAlarmAction (SnsAction (topic_id topic))
       \<lparr> alarm_id = node_id fn @ ''DurationAlarm'',
         alarmName = stackPrefix config @ ''-'' @ functionName fn @ ''-duration'',
         metric = metricDuration fn ''Average'' (Duration_minutes 5),
         threshold = durationThreshold config,
         evaluationPeriods = 2,
         comparisonOperator = GREATER_THAN_THRESHOLD,
         treatMissingData = NOT_BREACHING,
         alarmActions = [] \<rparr>"

definition widget :: "LambdaFunction \<Rightarrow> GraphWidget" where
  "widget fn = \<lparr>
     title = functionName fn,
     left = [metricInvocations fn ''Sum'' (Duration_minutes 5),
             metricErrors fn ''Sum'' (Duration_minutes 5),
             metricThrottles fn ''Sum'' (Duration_minutes 5)],
     right = [metricDuration fn ''Average'' (Duration_minutes 5)],
     width = 12,
     height = 6 \<rparr>"

text \<open>
  The body of the second \<open>forEach\<close>: it declares the three alarms in the stack and
  pushes the widget onto the local array \<open>lambdaWidgets\<close>. The state is the stack
  together with that array.
\<close>

definition declareAlarms ::
  "EnvironmentConfig \<Rightarrow> LambdaFunction \<Rightarrow> MonitoringStack \<times> GraphWidget list
     \<Rightarrow> MonitoringStack \<times> GraphWidget list" where
  "declareAlarms config fn acc =
     (let st = fst acc; lambdaWidgets = snd acc
      in (st\<lparr>alarms := alarms st @
               [errorAlarm config (alarmTopic st) fn,
                throttleAlarm config (alarmTopic st) fn,
                durationAlarm config (alarmTopic st) fn]\<rparr>,
          lambdaWidgets @ [widget fn]))"

text \<open>
  \<open>for (let i = 0; i < lambdaWidgets.length; i += 2)\<close>: the widgets go onto the
  dashboard in rows of two, \<open>slice(i, i + 2)\<close> being \<open>take 2 (drop i \<dots>)\<close>.
\<close>

function addWidgetRows :: "GraphWidget list \<Rightarrow> nat \<Rightarrow> Dashboard \<Rightarrow> Dashboard" where
  "addWidgetRows lambdaWidgets i d =
     (if i < length lambdaWidgets
      then addWidgetRows lambdaWidgets (i + 2) (addWidgets (take 2 (drop i lambdaWidgets)) d)
      else d)"
  by pat_completeness auto
termination
  by (relation "measure (\<lambda>(ws, i, d). length ws - i)") auto

declare addWidgetRows.simps [simp del]

definition apiGatewayMetric :: "EnvironmentConfig \<Rightarrow> string \<Rightarrow> string \<Rightarrow> Metric" where
  "apiGatewayMetric config name stat = \<lparr>
     namespace = ''AWS/ApiGateway'',
     metricName = name,
     dimensionsMap = [(''ApiName'', appName config @ ''-api-'' @ environment config)],
     statistic = stat,
     period = Duration_minutes 5 \<rparr>"

definition apiMetricsWidget :: "EnvironmentConfig \<Rightarrow> GraphWidget" where
  "apiMetricsWidget config = \<lparr>
     title = ''API Gateway Metrics'',
     left = [apiGatewayMetric config ''Count'' ''Sum'',
             apiGatewayMetric config ''4XXError'' ''Sum'',
             apiGatewayMetric config ''5XXError'' ''Sum''],
     right = [apiGatewayMetric config ''Latency'' ''Average''],
     width = 24,
     height = 6 \<rparr>"

definition newAlarmTopic :: "EnvironmentConfig \<Rightarrow> Topic" where
  "newAlarmTopic config =
     (let topic = \<lparr> topic_id = ''AlarmTopic'',
                     topicName = stackPrefix config @ ''-alarms'',
                     displayName = ''Readafull '' @ environment config @ '' Alarms'',
                     subscriptions = [] \<rparr>
      in case alarmEmail (monitoring config) of
           Some email \<Rightarrow> if email \<noteq> [] then addSubscription (EmailSubscription email) topic else topic
         | None \<Rightarrow> topic)"

text \<open>
  \<open>newMonitoringStack\<close>: the declarations the body of the constructor makes, in the
  order of its statements. Whether the construct tree accepts the ids of the declared
  constructs is the matter of \<open>constructMonitoringStack\<close> below.
\<close>

definition newMonitoringStack ::
  "string \<Rightarrow> EnvironmentConfig \<Rightarrow> LambdaFunction list \<Rightarrow> StackProps option \<Rightarrow> MonitoringStack" where
  "newMonitoringStack id' config lambdaFunctions props =
     (let st0 = \<lparr> monitoring_id = id',
                  monitoring_props = props,
                  alarmTopic = newAlarmTopic config,
                  dashboard = \<lparr> dashboard_id = ''Dashboard'',
                                dashboardName = stackPrefix config @ ''-dashboard'',
                                widgets = [] \<rparr>,
                  logGroups = [],
                  alarms = [],
                  monitoring_outputs = [] \<rparr>;
          st1 = fold (declareLogGroup config) lambdaFunctions st0;
          acc = fold (declareAlarms config) lambdaFunctions (st1, []);
          st2 = fst acc; lambdaWidgets = snd acc;
          st3 = st2\<lparr>dashboard := addWidgetRows lambdaWidgets 0 (dashboard st2)\<rparr>;
          st4 = st3\<lparr>dashboard := addWidgets [apiMetricsWidget config] (dashboard st3)\<rparr>
      in st4\<lparr>monitoring_outputs :=
           [\<lparr> output_id = ''AlarmTopicArn'', output_value = [Attr ''AlarmTopic'' ''topicArn''],
              output_description = ''SNS Topic ARN for Alarms'',
              exportName = stackPrefix config @ ''-AlarmTopicArn'' \<rparr>,
            \<lparr> output_id = ''DashboardUrl'',
              output_value =
                [Text (''https://console.aws.amazon.com/cloudwatch/home?region='' @ region config
                       @ ''#dashboards:name=''),
                 Attr ''Dashboard'' ''dashboardName''],
              output_description = ''CloudWatch Dashboard URL'',
              exportName = stackPrefix config @ ''-DashboardUrl'' \<rparr>]\<rparr>)"

subsection \<open>The construct tree\<close>

text \<open>
  What a constructor or the entry point can throw: a \<open>TypeError\<close> for a property read
  on \<open>undefined\<close>, and the error of the construct tree for a name that is taken.
\<close>

datatype error = TypeError string | DuplicateConstruct string

text \<open>
  Every \<open>new C(this, id, \<dots>)\<close> adds a child called \<open>id\<close> to the node of the stack, and
  the construct tree throws (\<open>There is already a Construct with name \<dots>\<close>) when the
  stack has a child of that name already. A scope is the list of the ids of its
  children; \<open>addChild\<close> is one such addition.
\<close>

definition addChild :: "string \<Rightarrow> string list \<Rightarrow> error + string list" where
  "addChild id' children =
     (if id' \<in> set children then Inl (DuplicateConstruct id') else Inr (children @ [id']))"

text \<open>A loop whose body can throw stops at the first error.\<close>

fun forEach :: "('a \<Rightarrow> 's \<Rightarrow> error + 's) \<Rightarrow> 'a list \<Rightarrow> 's \<Rightarrow> error + 's" where
  "forEach f [] s = Inr s"
| "forEach f (x # xs) s = (case f x s of Inl e \<Rightarrow> Inl e | Inr s' \<Rightarrow> forEach f xs s')"

text \<open>Statements one after the other, likewise.\<close>

definition steps :: "('s \<Rightarrow> error + 's) list \<Rightarrow> 's \<Rightarrow> error + 's" where
  "steps fs = forEach (\<lambda>f. f) fs"

text \<open>
  The children the constructor of the monitoring stack adds, in the order of its
  statements: the topic, the dashboard, one log group for every function (first loop),
  three alarms for every function (second loop), and the two outputs. The email
  subscription is a child of the topic, and widgets, metrics and alarm actions are no
  constructs.
\<close>

definition logGroupChild :: "LambdaFunction \<Rightarrow> string list \<Rightarrow> error + string list" where
  "logGroupChild fn = addChild (node_id fn @ ''LogGroup'')"

definition alarmChildren :: "LambdaFunction \<Rightarrow> string list \<Rightarrow> error + string list" where
  "alarmChildren fn =
     steps [addChild (node_id fn @ ''ErrorAlarm''),
            addChild (node_id fn @ ''ThrottleAlarm''),
            addChild (node_id fn @ ''DurationAlarm'')]"

definition monitoringChildren :: "LambdaFunction list \<Rightarrow> error + string list" where
  "monitoringChildren lambdaFunctions =
     steps [addChild ''AlarmTopic'',
            addChild ''Dashboard'',
            forEach logGroupChild lambdaFunctions,
            forEach alarmChildren lambdaFunctions,
            addChild ''AlarmTopicArn'',
            addChild ''DashboardUrl''] []"

text \<open>
  \<open>new MonitoringStack(scope, id, config, { lambdaFunctions }, props)\<close>: the
  constructor throws when one of its children cannot be added, and otherwise leaves
  the stack with the declarations of \<open>newMonitoringStack\<close>.
\<close>

definition constructMonitoringStack ::
  "string \<Rightarrow> EnvironmentConfig \<Rightarrow> LambdaFunction list \<Rightarrow> StackProps option
     \<Rightarrow> error + MonitoringStack" where
  "constructMonitoringStack id' config lambdaFunctions props =
     (case monitoringChildren lambdaFunctions of
        Inl e \<Rightarrow> Inl e
      | Inr children \<Rightarrow> Inr (newMonitoringStack id' config lambdaFunctions props))"

section \<open>The entry point (bin/readafull.ts)\<close>

text \<open>
  The app as far as the entry point shapes it: the stacks it creates, by id and in
  order, and the dependencies it adds, each a pair (dependent stack, stack depended on).
  A selector that resolves to a member of \<open>Object.prototype\<close> instead of a
  configuration record makes the first constructor read a property of \<open>undefined\<close>,
  which throws a \<open>TypeError\<close> before any stack exists.
\<close>

record App =
  app_stacks :: "string list"
  app_dependencies :: "(string \<times> string) list"

definition newStack :: "string \<Rightarrow> App \<Rightarrow> App" where
  "newStack id' app = app\<lparr>app_stacks := app_stacks app @ [id']\<rparr>"

definition addDependency :: "string \<Rightarrow> string \<Rightarrow> App \<Rightarrow> App" where
  "addDependency source target app =
     app\<lparr>app_dependencies := app_dependencies app @ [(source, target)]\<rparr>"

text \<open>
  \<open>context\<close> is \<open>app.node.tryGetContext('environment')\<close>: the selector given on the
  command line, or \<open>undefined\<close>; \<open>contextEnvironment\<close> is
  \<open>tryGetContext('environment') || 'development'\<close>.
\<close>

definition contextEnvironment :: "string option \<Rightarrow> string" where
  "contextEnvironment context =
     (case context of
        Some e \<Rightarrow> if e = [] then ''development'' else e
      | None \<Rightarrow> ''development'')"

definition readafull :: "string option \<Rightarrow> error + App" where
  "readafull context =
     (let environment' = contextEnvironment context
      in case getEnvironmentConfig environment' of
           Own config \<Rightarrow>
             (let app = \<lparr> app_stacks = [], app_dependencies = [] \<rparr>;
                  authStack = stackPrefix config @ ''-Auth'';
                  app = newStack authStack app;
                  storageStack = stackPrefix config @ ''-Storage'';
                  app = newStack storageStack app;
                  apiStack = stackPrefix config @ ''-Api'';
                  app = newStack apiStack app;
                  app = addDependency apiStack authStack app;
                  app = addDependency apiStack storageStack app;
                  monitoringStack = stackPrefix config @ ''-Monitoring'';
                  app = newStack monitoringStack app;
                  app = addDependency monitoringStack apiStack app
              in Inr app)
         | Inherited k \<Rightarrow> Inl (TypeError k)
         | Undefined \<Rightarrow> Inl (TypeError ''undefined''))"

text \<open>The stacks a stack depends on, directly.\<close>

definition dependenciesOf :: "App \<Rightarrow> string \<Rightarrow> string set" where
  "dependenciesOf app s = {t. (s, t) \<in> set (app_dependencies app)}"

section \<open>The destroy script (scripts/destroy.sh)\<close>

subsection \<open>The builtin \<open>read\<close>\<close>

text \<open>
  Standard input is the list of the lines it delivers, each a string of bytes ended by
  a newline; input that ends without a newline makes \<open>read\<close> fail like input that has
  ended. The script calls \<open>read\<close> without \<open>-r\<close>, with one variable and the default
  \<open>IFS\<close> (blank, tab, newline). What follows is the algorithm of bash for that call,
  on the string it builds internally, in which the byte \<open>CTLESC\<close> marks the next byte
  as quoted. A character is a byte, which is how bash reads in the C locale, and in a
  UTF-8 locale when the input is well-formed UTF-8; in a UTF-8 locale a byte that begins
  an incomplete sequence takes the bytes after it, the newline included, and that input
  is outside this model.
\<close>

definition backslash :: char where
  "backslash = CHR 0x5C"

definition tab :: char where
  "tab = CHR 0x09"

definition newline :: char where
  "newline = CHR 0x0A"

definition quote :: char where
  "quote = CHR 0x27"

definition NUL :: char where
  "NUL = CHR 0x00"

definition CTLESC :: char where
  "CTLESC = CHR 0x01"

definition CTLNUL :: char where
  "CTLNUL = CHR 0x7F"

text \<open>
  An unescaped byte of the input: a NUL byte is skipped, the two bytes bash uses as
  markers are stored quoted, every other byte is stored as it is.
\<close>

definition store :: "char \<Rightarrow> string" where
  "store c = (if c = NUL then [] else if c = CTLESC \<or> c = CTLNUL then [CTLESC, c] else [c])"

text \<open>
  \<open>scan l\<close>: the bytes stored for one line, and whether the line ends in a backslash,
  which joins the next line to it. A backslash elsewhere stores the byte after it
  quoted, whatever that byte is.
\<close>

fun scan :: "string \<Rightarrow> string \<times> bool" where
  "scan [] = ([], False)"
| "scan [c] = (if c = backslash then ([], True) else (store c, False))"
| "scan (c # d # cs) =
     (if c = backslash
      then (case scan cs of (r, k) \<Rightarrow> (CTLESC # d # r, k))
      else (case scan (d # cs) of (r, k) \<Rightarrow> (store c @ r, k)))"

fun readLine :: "string list \<Rightarrow> string option" where
  "readLine [] = None"
| "readLine (l # ls) =
     (case scan l of
        (r, False) \<Rightarrow> Some r
      | (r, True) \<Rightarrow> (case readLine ls of None \<Rightarrow> None | Some r' \<Rightarrow> Some (r @ r')))"

text \<open>The stored bytes are a C string: it ends at the first NUL (a quoted one).\<close>

definition cstring :: "string \<Rightarrow> string" where
  "cstring s = takeWhile (\<lambda>c. c \<noteq> NUL) s"

definition ifsWhitespace :: "char \<Rightarrow> bool" where
  "ifsWhitespace c = (c = CHR '' '' \<or> c = tab \<or> c = newline)"

text \<open>
  \<open>firstWord s\<close>: the first word of \<open>s\<close>, up to the first separator that is not quoted,
  and what follows it.
\<close>

fun firstWord :: "string \<Rightarrow> string \<times> string" where
  "firstWord [] = ([], [])"
| "firstWord [c] = (if ifsWhitespace c then ([], [c]) else ([c], []))"
| "firstWord (c # d # cs) =
     (if c = CTLESC then (case firstWord cs of (w, r) \<Rightarrow> (c # d # w, r))
      else if ifsWhitespace c then ([], c # d # cs)
      else (case firstWord (d # cs) of (w, r) \<Rightarrow> (c # w, r)))"

text \<open>
  \<open>strip_trailing_ifs_whitespace\<close> walks back from the end of the string, over
  separators and over a \<open>CTLESC\<close> that stands before a separator, and never beyond the
  first byte. \<open>stripFrom nxt\<close> is that walk on the reversed string, \<open>nxt\<close> being the
  byte after the current one.
\<close>

fun stripFrom :: "char \<Rightarrow> string \<Rightarrow> string" where
  "stripFrom nxt [] = []"
| "stripFrom nxt [c] = [c]"
| "stripFrom nxt (c # d # cs) =
     (if ifsWhitespace c \<or> (c = CTLESC \<and> ifsWhitespace nxt) then stripFrom c (d # cs)
      else c # d # cs)"

definition strip_trailing_ifs_whitespace :: "string \<Rightarrow> string" where
  "strip_trailing_ifs_whitespace s = rev (stripFrom NUL (rev s))"

text \<open>
  \<open>dequote_string\<close> removes the markers: each \<open>CTLESC\<close> goes and the byte after it
  stays; a \<open>CTLESC\<close> at the very end goes too, unless it is the whole string.
\<close>

fun unquote :: "string \<Rightarrow> string" where
  "unquote [] = []"
| "unquote [c] = (if c = CTLESC then [] else [c])"
| "unquote (c # d # cs) = (if c = CTLESC then d # unquote cs else c # unquote (d # cs))"

definition dequote_string :: "string \<Rightarrow> string" where
  "dequote_string s = (if s = [CTLESC] then s else unquote s)"

text \<open>
  The value of the variable: leading separators are skipped; a line of one word gives
  that word, a line of more words gives the whole line with its end stripped.
\<close>

definition assign :: "string \<Rightarrow> string" where
  "assign input_string =
     (let s = dropWhile ifsWhitespace (cstring input_string)
      in if s = [] then []
         else case firstWord s of
                (word, rest) \<Rightarrow>
                  if dropWhile ifsWhitespace rest = [] then dequote_string word
                  else dequote_string (strip_trailing_ifs_whitespace s))"

text \<open>\<open>read CONFIRM\<close>: the value assigned to the variable, or \<open>None\<close> when \<open>read\<close> fails.\<close>

definition read :: "string list \<Rightarrow> string option" where
  "read stdin = map_option assign (readLine stdin)"

subsection \<open>The script\<close>

text \<open>
  What the script does, in order: the lines it echoes, the prompt of \<open>read\<close> and the
  commands it runs.
\<close>

datatype action = Echo string | Prompt string | Command string

text \<open>
  \<open>destroy_sh args tty stdin npm\<close> gives the actions of a run and its exit status.
  \<open>tty\<close> tells whether standard input is a terminal: \<open>read -p\<close> shows its prompt only
  then. \<open>npm\<close> is the exit status of the \<open>npm run cdk:destroy\<close> command, should it run.
  Under \<open>set -e\<close> the script stops with the status of the first command that fails,
  which here can be \<open>read\<close> (status 1) or \<open>npm\<close>.
\<close>

definition destroyCommand :: "string \<Rightarrow> string" where
  "destroyCommand ENVIRONMENT =
     ''npm run cdk:destroy -- --all --context environment='' @ ENVIRONMENT @ '' --force''"

text \<open>\<open>${1:-development}\<close>: the first argument unless it is missing or empty.\<close>

definition environmentArg :: "string list \<Rightarrow> string" where
  "environmentArg args =
     (case args of
        [] \<Rightarrow> ''development''
      | a # _ \<Rightarrow> if a = [] then ''development'' else a)"

definition destroy_sh ::
  "string list \<Rightarrow> bool \<Rightarrow> string list \<Rightarrow> nat \<Rightarrow> action list \<times> nat" where
  "destroy_sh args tty stdin npm =
     (let ENVIRONMENT = environmentArg args;
          banner =
            [Echo ''========================================'',
             Echo ''Destroying Readafull Infrastructure'',
             Echo (''Environment: '' @ ENVIRONMENT),
             Echo ''========================================'',
             Echo [],
             Echo (''WARNING: This will destroy all resources in the '' @ ENVIRONMENT
                   @ '' environment!''),
             Echo ''This action cannot be undone.'',
             Echo []]
            @ (if tty
               then [Prompt (''Are you absolutely sure you want to continue? Type '' @ [quote]
                             @ ''destroy-'' @ ENVIRONMENT @ [quote] @ '' to confirm: '')]
               else [])
      in case read stdin of
           None \<Rightarrow> (banner, 1)
         | Some CONFIRM \<Rightarrow>
             if CONFIRM \<noteq> ''destroy-'' @ ENVIRONMENT
             then (banner @ [Echo ''Destruction cancelled.''], 0)
             else
               (let trace = banner @ [Echo [], Echo ''Destroying all stacks...'',
                                      Command (destroyCommand ENVIRONMENT)]
                in if npm \<noteq> 0 then (trace, npm)
                   else (trace @ [Echo [],
                                  Echo ''========================================'',
                                  Echo ''Destruction completed!'',
                                  Echo ''========================================''], 0)))"

text \<open>The commands among the actions of a run.\<close>

fun commands :: "action list \<Rightarrow> string list" where
  "commands [] = []"
| "commands (Command c # as) = c # commands as"
| "commands (_ # as) = commands as"

section \<open>The resolver\<close>

lemma getEnvironmentConfig_development:
  "getEnvironmentConfig ''development'' = Own development"
  by (simp add: getEnvironmentConfig_def getProperty_def orElse_def isObject_def configs_def)

lemma getEnvironmentConfig_staging:
  "getEnvironmentConfig ''staging'' = Own staging"
  by (simp add: getEnvironmentConfig_def getProperty_def orElse_def isObject_def configs_def)

lemma getEnvironmentConfig_production:
  "getEnvironmentConfig ''production'' = Own production"
  by (simp add: getEnvironmentConfig_def getProperty_def orElse_def isObject_def configs_def)

lemma getEnvironmentConfig_empty:
  "getEnvironmentConfig [] = Own development"
  by (simp add: getEnvironmentConfig_def getProperty_def orElse_def isObject_def configs_def)

text \<open>
  A selector that names neither a configuration nor a member of \<open>Object.prototype\<close>
  falls back to the development record.
\<close>

lemma getEnvironmentConfig_fallback:
  assumes "env \<notin> {''development'', ''staging'', ''production''}"
      and "env \<notin> set ObjectPrototype"
  shows "getEnvironmentConfig env = Own development"
proof (cases "env = []")
  case True
  then show ?thesis by (simp add: getEnvironmentConfig_empty)
next
  case False
  from assms(1) have "map_of configs env = None"
    by (simp add: configs_def)
  with False assms(2) show ?thesis
    by (simp add: getEnvironmentConfig_def getProperty_def orElse_def isObject_def configs_def)
qed

text \<open>A selector that names a member of \<open>Object.prototype\<close> resolves to that member.\<close>

lemma getEnvironmentConfig_inherited:
  assumes "env \<in> set ObjectPrototype"
  shows "getEnvironmentConfig env = Inherited env"
proof -
  from assms have ne: "env \<noteq> []" and "env \<notin> {''development'', ''staging'', ''production''}"
    by (auto simp: ObjectPrototype_def)
  then have "map_of configs env = None"
    by (simp add: configs_def)
  with ne assms show ?thesis
    by (simp add: getEnvironmentConfig_def getProperty_def orElse_def)
qed

lemma getEnvironmentConfig_Own:
  assumes "getEnvironmentConfig env = Own c"
  shows "env = ''production'' \<and> c = production
       \<or> env = ''staging'' \<and> c = staging
       \<or> env \<notin> {''production'', ''staging''} \<and> c = development"
proof (cases "env \<in> set ObjectPrototype")
  case True
  with assms show ?thesis by (simp add: getEnvironmentConfig_inherited)
next
  case False
  consider "env = ''production''" | "env = ''staging''" | "env = ''development''"
    | "env \<notin> {''development'', ''staging'', ''production''}" by auto
  then show ?thesis
  proof cases
    case 1 with assms show ?thesis by (simp add: getEnvironmentConfig_production)
  next
    case 2 with assms show ?thesis by (simp add: getEnvironmentConfig_staging)
  next
    case 3 with assms show ?thesis by (simp add: getEnvironmentConfig_development)
  next
    case 4 with assms False show ?thesis by (simp add: getEnvironmentConfig_fallback)
  qed
qed

lemma environment_of_config [simp]:
  "environment development = ''development''"
  "environment staging = ''staging''"
  "environment production = ''production''"
  by (simp_all add: development_def staging_def production_def)

text \<open>
  C4. The claim: every selector other than the three supported ones yields the
  development record. The code at the selector \<open>constructor\<close>: the name is none of the
  three supported selectors, \<open>configs[env]\<close> finds the inherited member of that name,
  which is truthy, so the fallback \<open>|| configs.development\<close> is not taken and the
  function returns that member, not the development record.
\<close>

theorem getEnvironmentConfig_constructor:
  "''constructor'' \<noteq> ''development'' \<and> ''constructor'' \<noteq> ''staging''
   \<and> ''constructor'' \<noteq> ''production''
   \<and> getEnvironmentConfig ''constructor'' = Inherited ''constructor''
   \<and> getEnvironmentConfig ''constructor'' \<noteq> Own development"
  by (simp add: getEnvironmentConfig_inherited ObjectPrototype_def)

text \<open>
  C5. For each supported selector, \<open>development\<close>, \<open>staging\<close> or \<open>production\<close>, the
  resolver returns a configuration record whose \<open>environment\<close> field equals the selector.
\<close>

theorem getEnvironmentConfig_supported:
  assumes "env \<in> {''development'', ''staging'', ''production''}"
  shows "\<exists>config. getEnvironmentConfig env = Own config \<and> environment config = env"
  using assms
  by (auto simp: getEnvironmentConfig_development getEnvironmentConfig_staging
      getEnvironmentConfig_production)

theorem getEnvironmentConfig_supported_witness:
  "''staging'' \<in> {''development'', ''staging'', ''production''}
   \<and> (\<exists>config. getEnvironmentConfig ''staging'' = Own config \<and> environment config = ''staging'')"
proof -
  have h: "''staging'' \<in> {''development'', ''staging'', ''production''}" by simp
  from getEnvironmentConfig_supported [OF h] h show ?thesis by blast
qed

section \<open>The storage stack\<close>

lemma mainTable_newStorageStack:
  "mainTable (newStorageStack id' config props)
   = (newMainTable config)\<lparr>globalSecondaryIndexes := [GSI1]\<rparr>"
  by (simp add: newStorageStack_def addGlobalSecondaryIndex_def newMainTable_def)

lemma audioBucket_newStorageStack:
  "audioBucket (newStorageStack id' config props) = newAudioBucket config"
  by (simp add: newStorageStack_def)

text \<open>
  C3. For every configuration the resolver returns, the main table and the audio bucket
  of the storage stack both have removal policy \<open>RETAIN\<close> when the environment is
  production, and both have \<open>DESTROY\<close>, with the bucket's objects deleted
  automatically, when it is development or staging; no other environment occurs.
\<close>

theorem removalPolicy_by_environment:
  assumes "getEnvironmentConfig env = Own config"
  shows "table_removalPolicy (mainTable (newStorageStack id' config props))
           = (if environment config = ''production'' then RETAIN else DESTROY)
       \<and> bucket_removalPolicy (audioBucket (newStorageStack id' config props))
           = (if environment config = ''production'' then RETAIN else DESTROY)
       \<and> autoDeleteObjects (audioBucket (newStorageStack id' config props))
           = (environment config = ''development'' \<or> environment config = ''staging'')
       \<and> environment config \<in> {''development'', ''staging'', ''production''}"
proof -
  from getEnvironmentConfig_Own [OF assms]
  have env: "environment config \<in> {''development'', ''staging'', ''production''}"
    by auto
  then have "(environment config \<noteq> ''production'')
      = (environment config = ''development'' \<or> environment config = ''staging'')"
    by auto
  with env show ?thesis
    by (simp add: mainTable_newStorageStack audioBucket_newStorageStack
        newMainTable_def newAudioBucket_def)
qed

theorem removalPolicy_by_environment_witness:
  "getEnvironmentConfig ''production'' = Own production
   \<and> table_removalPolicy (mainTable (newStorageStack ''Readafull-Prod-Storage'' production None))
       = RETAIN
   \<and> bucket_removalPolicy (audioBucket (newStorageStack ''Readafull-Prod-Storage'' production None))
       = RETAIN
   \<and> \<not> autoDeleteObjects (audioBucket (newStorageStack ''Readafull-Prod-Storage'' production None))"
  using removalPolicy_by_environment [OF getEnvironmentConfig_production,
      of "''Readafull-Prod-Storage''" None]
  by (simp add: getEnvironmentConfig_production)

lemma removalPolicy_development:
  "table_removalPolicy (mainTable (newStorageStack id' development props)) = DESTROY
   \<and> bucket_removalPolicy (audioBucket (newStorageStack id' development props)) = DESTROY
   \<and> autoDeleteObjects (audioBucket (newStorageStack id' development props))"
  by (simp add: mainTable_newStorageStack audioBucket_newStorageStack
      newMainTable_def newAudioBucket_def)

lemma removalPolicy_staging:
  "table_removalPolicy (mainTable (newStorageStack id' staging props)) = DESTROY
   \<and> bucket_removalPolicy (audioBucket (newStorageStack id' staging props)) = DESTROY
   \<and> autoDeleteObjects (audioBucket (newStorageStack id' staging props))"
  by (simp add: mainTable_newStorageStack audioBucket_newStorageStack
      newMainTable_def newAudioBucket_def)

text \<open>
  C6. For every configuration the resolver returns, the audio bucket has one lifecycle
  rule; it moves objects to the intelligent-tiering storage class after 30 days and
  expires them after the configured number of days, which is 30 for development, 60 for
  staging and 90 for production.
\<close>

theorem lifecycleRule_by_environment:
  assumes "getEnvironmentConfig env = Own config"
  shows "\<exists>rule. lifecycleRules (audioBucket (newStorageStack id' config props)) = [rule]
           \<and> enabled rule
           \<and> transitions rule
               = [\<lparr> storageClass = INTELLIGENT_TIERING, transitionAfter = Duration_days 30 \<rparr>]
           \<and> expiration rule = Duration_days (lifecycleDays (s3 config))
           \<and> lifecycleDays (s3 config)
               = (if environment config = ''development'' then 30
                  else if environment config = ''staging'' then 60 else 90)"
proof -
  have days: "lifecycleDays (s3 config)
      = (if environment config = ''development'' then 30
         else if environment config = ''staging'' then 60 else 90)"
    using getEnvironmentConfig_Own [OF assms]
    by (auto simp: development_def staging_def production_def)
  then show ?thesis
    by (simp add: audioBucket_newStorageStack newAudioBucket_def)
qed

theorem lifecycleRule_by_environment_witness:
  "getEnvironmentConfig ''production'' = Own production
   \<and> map expiration (lifecycleRules (audioBucket (newStorageStack ''S'' production None)))
       = [Duration_days 90]
   \<and> map transitions (lifecycleRules (audioBucket (newStorageStack ''S'' production None)))
       = [[\<lparr> storageClass = INTELLIGENT_TIERING, transitionAfter = Duration_days 30 \<rparr>]]"
  using lifecycleRule_by_environment [OF getEnvironmentConfig_production, of "''S''" None]
  by (auto simp: getEnvironmentConfig_production)

lemma lifecycleDays_of_config:
  "lifecycleDays (s3 development) = 30"
  "lifecycleDays (s3 staging) = 60"
  "lifecycleDays (s3 production) = 90"
  by (simp_all add: development_def staging_def production_def)

text \<open>
  C10. For every configuration the resolver returns, the main table has point-in-time
  recovery exactly when the environment is production.
\<close>

theorem pointInTimeRecovery_by_environment:
  assumes "getEnvironmentConfig env = Own config"
  shows "pointInTimeRecovery (mainTable (newStorageStack id' config props))
           = (environment config = ''production'')
       \<and> (environment config = ''production'') = (env = ''production'')"
proof -
  from getEnvironmentConfig_Own [OF assms]
  have "(environment config = ''production'') = (env = ''production'')"
    by auto
  then show ?thesis
    by (simp add: mainTable_newStorageStack newMainTable_def)
qed

theorem pointInTimeRecovery_by_environment_witness:
  "getEnvironmentConfig ''staging'' = Own staging
   \<and> \<not> pointInTimeRecovery (mainTable (newStorageStack ''S'' staging None))"
  using pointInTimeRecovery_by_environment [OF getEnvironmentConfig_staging, of "''S''" None]
  by (simp add: getEnvironmentConfig_staging)

lemma pointInTimeRecovery_production:
  "pointInTimeRecovery (mainTable (newStorageStack id' production props))"
  by (simp add: mainTable_newStorageStack newMainTable_def)

section \<open>The monitoring stack\<close>

subsection \<open>Log retention\<close>

lemma toString_not_Nil: "toString n \<noteq> []"
  by (subst toString.simps) simp

lemma hd_toString: "hd (toString n) \<in> set ''0123456789''"
proof (induction n rule: toString.induct)
  case (1 n)
  show ?case
  proof (cases "n < 10")
    case True
    then have "n \<in> {0,1,2,3,4,5,6,7,8,9}" by auto
    then show ?thesis by (subst toString.simps) auto
  next
    case False
    with 1 show ?thesis
      by (subst toString.simps) (simp add: toString_not_Nil)
  qed
qed

lemma not_toString: "hd k \<notin> set ''0123456789'' \<Longrightarrow> k \<noteq> toString v"
  using hd_toString[of v] by metis

text \<open>A key that is not a numeral is looked up among the member names only.\<close>

lemma map_of_enumObject:
  assumes "\<And>v. k \<noteq> toString v"
  shows "map_of (enumObject members) k = map_option Num (map_of members k)"
  by (induction members) (auto simp: enumObject_def assms)

text \<open>No member of the enum is called \<open>DAYS_\<dots>\<close>.\<close>

lemma RetentionDays_DAYS: "getProperty RetentionDays (''DAYS_'' @ s) = Undefined"
proof -
  have "map_of RetentionDays_members (''DAYS_'' @ s) = None"
    by (simp add: RetentionDays_members_def)
  moreover have "map_of RetentionDays (''DAYS_'' @ s)
      = map_option Num (map_of RetentionDays_members (''DAYS_'' @ s))"
    unfolding RetentionDays_def by (rule map_of_enumObject, rule not_toString) simp
  ultimately have "map_of RetentionDays (''DAYS_'' @ s) = None"
    by (simp only: option.map)
  moreover have "''DAYS_'' @ s \<notin> set ObjectPrototype"
    by (simp add: ObjectPrototype_def)
  ultimately show ?thesis
    by (simp only: getProperty_def option.case if_False)
qed

lemma RetentionDays_name:
  assumes "hd k \<notin> set ''0123456789''" and "map_of RetentionDays_members k = Some v"
  shows "getProperty RetentionDays k = Own (Num v)"
proof -
  have "map_of RetentionDays k = map_option Num (map_of RetentionDays_members k)"
    unfolding RetentionDays_def by (rule map_of_enumObject, rule not_toString) (rule assms(1))
  with assms(2) have "map_of RetentionDays k = Some (Num v)"
    by (simp only: option.map)
  then show ?thesis
    by (simp only: getProperty_def option.case)
qed

lemma RetentionDays_ONE_WEEK: "getProperty RetentionDays ''ONE_WEEK'' = Own (Num 7)"
  by (rule RetentionDays_name) (simp_all add: RetentionDays_members_def)

lemma RetentionDays_TWO_WEEKS: "getProperty RetentionDays ''TWO_WEEKS'' = Own (Num 14)"
  by (rule RetentionDays_name) (simp_all add: RetentionDays_members_def)

lemma RetentionDays_ONE_MONTH: "getProperty RetentionDays ''ONE_MONTH'' = Own (Num 30)"
  by (rule RetentionDays_name) (simp_all add: RetentionDays_members_def)

text \<open>
  Whatever number of days is configured, the lookup misses and the retention is
  \<open>ONE_WEEK\<close>.
\<close>

lemma retentionFor_RetentionDays: "retentionFor RetentionDays days = Own (Num 7)"
  by (simp only: retentionFor_def RetentionDays_DAYS RetentionDays_ONE_WEEK orElse_def lookup.case)

text \<open>
  The lookup as such, on any enum object: the member called \<open>DAYS_n\<close> when the object
  has one with a truthy value, the member \<open>ONE_WEEK\<close> when it has none.
\<close>

lemma retentionFor_match:
  assumes "map_of retentionDays (''DAYS_'' @ toString days) = Some v" and "truthyEnum v"
  shows "retentionFor retentionDays days = Own v"
  using assms by (simp add: retentionFor_def getProperty_def orElse_def)

lemma retentionFor_default:
  assumes "map_of retentionDays (''DAYS_'' @ toString days) = None"
  shows "retentionFor retentionDays days = getProperty retentionDays ''ONE_WEEK''"
  using assms by (simp add: retentionFor_def getProperty_def orElse_def ObjectPrototype_def)

lemma fold_declareLogGroup:
  "fold (declareLogGroup config) fns st =
     st\<lparr>logGroups := logGroups st @
       map (\<lambda>fn. \<lparr> logGroup_id = node_id fn @ ''LogGroup'',
                   logGroupName = ''/aws/lambda/'' @ functionName fn,
                   retention = retentionFor RetentionDays (logRetentionDays (monitoring config)),
                   logGroup_removalPolicy = DESTROY \<rparr>) fns\<rparr>"
  by (induction fns arbitrary: st) (simp_all add: declareLogGroup_def)

lemma fold_declareAlarms:
  "fold (declareAlarms config) fns acc =
     ((fst acc)\<lparr>alarms := alarms (fst acc) @
         concat (map (\<lambda>fn. [errorAlarm config (alarmTopic (fst acc)) fn,
                             throttleAlarm config (alarmTopic (fst acc)) fn,
                             durationAlarm config (alarmTopic (fst acc)) fn]) fns)\<rparr>,
      snd acc @ map widget fns)"
  by (induction fns arbitrary: acc) (simp_all add: declareAlarms_def Let_def)

lemma logGroups_newMonitoringStack:
  "logGroups (newMonitoringStack id' config fns props) =
     map (\<lambda>fn. \<lparr> logGroup_id = node_id fn @ ''LogGroup'',
                 logGroupName = ''/aws/lambda/'' @ functionName fn,
                 retention = retentionFor RetentionDays (logRetentionDays (monitoring config)),
                 logGroup_removalPolicy = DESTROY \<rparr>) fns"
  by (simp add: newMonitoringStack_def Let_def fold_declareLogGroup fold_declareAlarms)

lemma alarmTopic_newMonitoringStack:
  "alarmTopic (newMonitoringStack id' config fns props) = newAlarmTopic config"
  by (simp add: newMonitoringStack_def Let_def fold_declareLogGroup fold_declareAlarms)

lemma alarms_newMonitoringStack:
  "alarms (newMonitoringStack id' config fns props) =
     concat (map (\<lambda>fn. [errorAlarm config (newAlarmTopic config) fn,
                         throttleAlarm config (newAlarmTopic config) fn,
                         durationAlarm config (newAlarmTopic config) fn]) fns)"
  by (simp add: newMonitoringStack_def Let_def fold_declareLogGroup fold_declareAlarms)

lemma topic_id_newAlarmTopic: "topic_id (newAlarmTopic config) = ''AlarmTopic''"
  by (simp add: newAlarmTopic_def Let_def addSubscription_def split: option.split)

text \<open>
  C1. The claim: the log retention follows the configured number of days, 7, 14 or 30,
  to the retention tier of that length. The code at the production configuration, which
  asks for 30 days: the enum has a 30-day member, \<open>ONE_MONTH\<close>, but the key the stack
  builds is \<open>DAYS_30\<close>, which names no member, so the default is taken and every log
  group is declared with \<open>ONE_WEEK\<close>, seven days.
\<close>

theorem logGroup_retention_production:
  "logRetentionDays (monitoring production) = 30
   \<and> getProperty RetentionDays ''ONE_MONTH'' = Own (Num 30)
   \<and> map retention (logGroups (newMonitoringStack id' production lambdaFunctions props))
       = replicate (length lambdaFunctions) (Own (Num 7))"
proof -
  have "logRetentionDays (monitoring production) = 30"
    by (simp add: production_def)
  moreover have "map retention (logGroups (newMonitoringStack id' production lambdaFunctions props))
       = replicate (length lambdaFunctions) (Own (Num 7))"
    by (simp add: logGroups_newMonitoringStack retentionFor_RetentionDays comp_def
        map_replicate_const)
  ultimately show ?thesis
    using RetentionDays_ONE_MONTH by simp
qed

text \<open>The same happens for staging, which asks for 14 days.\<close>

lemma logGroup_retention_staging:
  "logRetentionDays (monitoring staging) = 14
   \<and> getProperty RetentionDays ''TWO_WEEKS'' = Own (Num 14)
   \<and> map retention (logGroups (newMonitoringStack id' staging lambdaFunctions props))
       = replicate (length lambdaFunctions) (Own (Num 7))"
proof -
  have "logRetentionDays (monitoring staging) = 14"
    by (simp add: staging_def)
  moreover have "map retention (logGroups (newMonitoringStack id' staging lambdaFunctions props))
       = replicate (length lambdaFunctions) (Own (Num 7))"
    by (simp add: logGroups_newMonitoringStack retentionFor_RetentionDays comp_def
        map_replicate_const)
  ultimately show ?thesis
    using RetentionDays_TWO_WEEKS by simp
qed

subsection \<open>Alarms\<close>

lemma nth_concat_triples:
  assumes "i < length xs"
  shows "concat (map (\<lambda>x. [f x, g x, h x]) xs) ! (3 * i) = f (xs ! i)"
    and "concat (map (\<lambda>x. [f x, g x, h x]) xs) ! (3 * i + 1) = g (xs ! i)"
    and "concat (map (\<lambda>x. [f x, g x, h x]) xs) ! (3 * i + 2) = h (xs ! i)"
  using assms
proof (induction xs arbitrary: i)
  case Nil
  { case 1 then show ?case by simp
  next case 2 then show ?case by simp
  next case 3 then show ?case by simp }
next
  case (Cons x xs)
  { case 1 then show ?case using Cons.IH(1)[of "i - 1"] by (cases i) simp_all
  next case 2 then show ?case using Cons.IH(2)[of "i - 1"] by (cases i) simp_all
  next case 3 then show ?case using Cons.IH(3)[of "i - 1"] by (cases i) simp_all }
qed

lemma length_concat_triples: "length (concat (map (\<lambda>x. [f x, g x, h x]) xs)) = 3 * length xs"
  by (induction xs) simp_all

lemma length_alarms: "length (alarms (newMonitoringStack id' config fns props)) = 3 * length fns"
  by (simp only: alarms_newMonitoringStack length_concat_triples)

lemma nth_alarms:
  assumes "i < length fns"
  shows "alarms (newMonitoringStack id' config fns props) ! (3 * i)
           = errorAlarm config (newAlarmTopic config) (fns ! i)"
    and "alarms (newMonitoringStack id' config fns props) ! (3 * i + 1)
           = throttleAlarm config (newAlarmTopic config) (fns ! i)"
    and "alarms (newMonitoringStack id' config fns props) ! (3 * i + 2)
           = durationAlarm config (newAlarmTopic config) (fns ! i)"
  using assms by (simp_all only: alarms_newMonitoringStack nth_concat_triples)

text \<open>
  The number model does what it is meant to: \<open>binade\<close> brackets a positive number
  between two neighbouring powers of two, and \<open>float64 x\<close> is a multiple of the unit
  in the last place of \<open>x\<close> within half such a unit of \<open>x\<close>.
\<close>

lemma roundHalfEven_near: "\<bar>x - of_int (roundHalfEven x)\<bar> \<le> 1 / 2"
proof -
  have "of_int \<lfloor>x\<rfloor> \<le> x" "x < of_int \<lfloor>x\<rfloor> + 1" by linarith+
  then show ?thesis
    by (auto simp: roundHalfEven_def Let_def)
qed

lemma binade_bounds:
  assumes "0 < x"
  shows "pow2 (binade x) \<le> x" and "x < pow2 (binade x + 1)"
proof -
  have "pow2 (binade x) \<le> x \<and> x < pow2 (binade x + 1)"
  proof (cases "1 \<le> x")
    case True
    define n where "n = nat \<lfloor>x\<rfloor>"
    define k where "k = floorlog 2 n"
    have n: "0 < n" "of_nat n \<le> x" "x < of_nat n + 1"
      using True by (simp_all add: n_def) linarith+
    from floorlog_bounds [of n 2] n(1)
    have b: "2 ^ (k - 1) \<le> n" "n < 2 ^ k" by (simp_all add: k_def)
    have k: "0 < k" using n(1) by (simp add: k_def floorlog_def)
    have e: "binade x = int k - 1" using True by (simp add: binade_def n_def k_def)
    have "pow2 (binade x) = 2 ^ (k - 1)"
      using k by (simp add: e pow2_def nat_diff_distrib')
    moreover have "pow2 (binade x + 1) = 2 ^ k"
      by (simp add: e pow2_def)
    moreover have "(2::rat) ^ (k - 1) \<le> of_nat n"
      using b(1) by (metis of_nat_le_iff of_nat_numeral of_nat_power)
    moreover have "of_nat n + 1 \<le> (2::rat) ^ k"
    proof -
      from b(2) have "n + 1 \<le> 2 ^ k" by simp
      then have "(of_nat (n + 1) :: rat) \<le> of_nat (2 ^ k)" by (simp only: of_nat_le_iff)
      then show ?thesis by simp
    qed
    ultimately show ?thesis using n by linarith
  next
    case False
    define r where "r = 1 / x"
    define m where "m = nat (\<lceil>r\<rceil> - 1)"
    define k where "k = floorlog 2 m"
    from False assms have r: "1 < r" by (simp add: r_def)
    then have c: "2 \<le> \<lceil>r\<rceil>" by linarith
    have cr: "of_int \<lceil>r\<rceil> - 1 < r" "r \<le> of_int \<lceil>r\<rceil>" by linarith+
    have m: "0 < m" "int m = \<lceil>r\<rceil> - 1" using c by (simp_all add: m_def)
    from floorlog_bounds [of m 2] m(1)
    have b: "2 ^ (k - 1) \<le> m" "m < 2 ^ k" by (simp_all add: k_def)
    have k: "0 < k" using m(1) by (simp add: k_def floorlog_def)
    have e: "binade x = - int k" using False by (simp add: binade_def r_def m_def k_def)
    have lo: "(2::rat) ^ (k - 1) < r"
    proof -
      from b(1) have "(2::rat) ^ (k - 1) \<le> of_nat m"
        by (metis of_nat_le_iff of_nat_numeral of_nat_power)
      also have "(of_nat m :: rat) = of_int \<lceil>r\<rceil> - 1"
        using m(2) by (metis of_int_1 of_int_diff of_int_of_nat_eq)
      finally show ?thesis using cr(1) by linarith
    qed
    have hi: "r \<le> (2::rat) ^ k"
    proof -
      from b(2) have "int m + 1 \<le> 2 ^ k"
        by (metis of_nat_less_iff of_nat_numeral of_nat_power zless_imp_add1_zle)
      with m(2) have "\<lceil>r\<rceil> \<le> 2 ^ k" by simp
      then have "(of_int \<lceil>r\<rceil> :: rat) \<le> of_int (2 ^ k)" by (simp only: of_int_le_iff)
      then have "(of_int \<lceil>r\<rceil> :: rat) \<le> 2 ^ k" by simp
      with cr(2) show ?thesis by linarith
    qed
    have p1: "pow2 (binade x) = 1 / 2 ^ k"
      using k by (simp add: e pow2_def)
    have p2: "pow2 (binade x + 1) = 1 / 2 ^ (k - 1)"
    proof (cases "k = 1")
      case True then show ?thesis by (simp add: e pow2_def)
    next
      case False
      with k have "\<not> 0 \<le> - int k + 1" "nat (- (- int k + 1)) = k - 1" by simp_all
      then show ?thesis by (simp add: e pow2_def)
    qed
    have x: "x = 1 / r" using assms by (simp add: r_def)
    have "1 / 2 ^ k \<le> 1 / r"
      using hi r by (simp add: frac_le)
    moreover have "1 / r < 1 / 2 ^ (k - 1)"
      using lo by (simp add: frac_less2)
    ultimately show ?thesis unfolding p1 p2 x [symmetric] by simp
  qed
  then show "pow2 (binade x) \<le> x" and "x < pow2 (binade x + 1)" by simp_all
qed

lemma pow2_pos: "0 < pow2 e"
  by (simp add: pow2_def)

lemma float64_near:
  "\<bar>float64 x - x\<bar> \<le> pow2 (binade \<bar>x\<bar> - 52) / 2"
proof (cases "x = 0")
  case True
  then show ?thesis
    using pow2_pos [of "binade \<bar>x\<bar> - 52"] by (simp add: float64_def)
next
  case False
  define u where "u = pow2 (binade \<bar>x\<bar> - 52)"
  define m where "m = roundHalfEven (\<bar>x\<bar> / u)"
  have u: "0 < u" by (simp add: u_def pow2_pos)
  have f: "float64 x = sgn x * of_int m * u"
    using False by (simp add: float64_def Let_def u_def m_def)
  have "\<bar>float64 x - x\<bar> = \<bar>sgn x * (of_int m * u - \<bar>x\<bar>)\<bar>"
    by (simp add: f algebra_simps flip: abs_sgn)
       (metis mult.commute mult_sgn_abs)
  also have "\<dots> = \<bar>of_int m * u - \<bar>x\<bar>\<bar>"
    using False by (simp add: abs_mult abs_sgn_eq)
  also have "\<dots> = u * \<bar>\<bar>x\<bar> / u - of_int m\<bar>"
  proof -
    have "of_int m * u - \<bar>x\<bar> = u * (of_int m - \<bar>x\<bar> / u)"
      using u by (simp add: field_simps)
    then show ?thesis
      using u by (simp add: abs_mult abs_minus_commute)
  qed
  also have "\<dots> \<le> u * (1 / 2)"
    using u roundHalfEven_near [of "\<bar>x\<bar> / u"] by (simp add: m_def)
  finally show ?thesis by (simp add: u_def)
qed

text \<open>The duration threshold, computed in doubles, for the two configured timeouts.\<close>

lemma timeout_of_config:
  "timeout (lambda development) = 30"
  "timeout (lambda staging) = 60"
  "timeout (lambda production) = 60"
  by (simp_all add: development_def staging_def production_def)

lemma floor_rat_numeral: "\<lfloor>numeral a / numeral b :: rat\<rfloor> = numeral a div numeral b"
  by (metis floor_divide_of_int_eq of_int_numeral)

lemma ceiling_rat_numeral: "\<lceil>numeral a / numeral b :: rat\<rceil> = - (- numeral a div numeral b)"
  by (metis ceiling_def floor_divide_of_int_eq minus_divide_left of_int_minus of_int_numeral)

lemmas float64_eval =
  times_def float64_def binade_def pow2_def roundHalfEven_def Let_def compute_floorlog
  floor_rat_numeral ceiling_rat_numeral

lemma float64_four_fifths: "float64 (8 / 10) = 3602879701896397 / 4503599627370496"
  by (simp add: float64_eval)

lemma durationThreshold_30:
  "times (times (float64 (of_nat 30)) (float64 1000)) (float64 (8 / 10)) = 24000"
  by (simp add: float64_eval)

lemma durationThreshold_60:
  "times (times (float64 (of_nat 60)) (float64 1000)) (float64 (8 / 10)) = 48000"
  by (simp add: float64_eval)

lemma durationThreshold_development: "durationThreshold development = 24000"
  by (simp only: durationThreshold_def timeout_of_config durationThreshold_30)

lemma durationThreshold_staging: "durationThreshold staging = 48000"
  by (simp only: durationThreshold_def timeout_of_config durationThreshold_60)

lemma durationThreshold_production: "durationThreshold production = 48000"
  by (simp only: durationThreshold_def timeout_of_config durationThreshold_60)

lemma durationThreshold_resolved:
  assumes "getEnvironmentConfig env = Own config"
  shows "durationThreshold config = 8 / 10 * (of_nat (timeout (lambda config)) * 1000)"
    and "durationThreshold config = (if environment config = ''development'' then 24000 else 48000)"
    and "timeout (lambda config) = (if environment config = ''development'' then 30 else 60)"
  using getEnvironmentConfig_Own [OF assms]
  by (auto simp: durationThreshold_development durationThreshold_staging
      durationThreshold_production timeout_of_config)

lemma errorAlarm_fields:
  "alarm_id (errorAlarm config topic fn) = node_id fn @ ''ErrorAlarm''"
  "metric (errorAlarm config topic fn) = metricErrors fn ''Sum'' (Duration_minutes 5)"
  "threshold (errorAlarm config topic fn) = 10"
  "evaluationPeriods (errorAlarm config topic fn) = 2"
  "comparisonOperator (errorAlarm config topic fn) = GREATER_THAN_THRESHOLD"
  "treatMissingData (errorAlarm config topic fn) = NOT_BREACHING"
  "alarmActions (errorAlarm config topic fn) = [SnsAction (topic_id topic)]"
  by (simp_all add: errorAlarm_def addAlarmAction_def)

lemma throttleAlarm_fields:
  "alarm_id (throttleAlarm config topic fn) = node_id fn @ ''ThrottleAlarm''"
  "metric (throttleAlarm config topic fn) = metricThrottles fn ''Sum'' (Duration_minutes 5)"
  "threshold (throttleAlarm config topic fn) = 5"
  "evaluationPeriods (throttleAlarm config topic fn) = 2"
  "comparisonOperator (throttleAlarm config topic fn) = GREATER_THAN_THRESHOLD"
  "treatMissingData (throttleAlarm config topic fn) = NOT_BREACHING"
  "alarmActions (throttleAlarm config topic fn) = [SnsAction (topic_id topic)]"
  by (simp_all add: throttleAlarm_def addAlarmAction_def)

lemma durationAlarm_fields:
  "alarm_id (durationAlarm config topic fn) = node_id fn @ ''DurationAlarm''"
  "metric (durationAlarm config topic fn) = metricDuration fn ''Average'' (Duration_minutes 5)"
  "threshold (durationAlarm config topic fn) = durationThreshold config"
  "evaluationPeriods (durationAlarm config topic fn) = 2"
  "comparisonOperator (durationAlarm config topic fn) = GREATER_THAN_THRESHOLD"
  "treatMissingData (durationAlarm config topic fn) = NOT_BREACHING"
  "alarmActions (durationAlarm config topic fn) = [SnsAction (topic_id topic)]"
  by (simp_all add: durationAlarm_def addAlarmAction_def)

lemma lambdaMetric_fields:
  "metricName (metricErrors fn stat per) = ''Errors''"
  "metricName (metricThrottles fn stat per) = ''Throttles''"
  "metricName (metricDuration fn stat per) = ''Duration''"
  "statistic (metricErrors fn stat per) = stat"
  "statistic (metricThrottles fn stat per) = stat"
  "statistic (metricDuration fn stat per) = stat"
  "period (metricErrors fn stat per) = per"
  "period (metricThrottles fn stat per) = per"
  "period (metricDuration fn stat per) = per"
  "dimensionsMap (metricErrors fn stat per) = [(''FunctionName'', functionName fn)]"
  "dimensionsMap (metricThrottles fn stat per) = [(''FunctionName'', functionName fn)]"
  "dimensionsMap (metricDuration fn stat per) = [(''FunctionName'', functionName fn)]"
  by (simp_all add: metricErrors_def metricThrottles_def metricDuration_def lambdaMetric_def)

subsection \<open>The ids of the constructs\<close>

lemma forEach_append:
  "forEach f (xs @ ys) s = (case forEach f xs s of Inl e \<Rightarrow> Inl e | Inr s' \<Rightarrow> forEach f ys s')"
  by (induction xs arbitrary: s) (simp_all split: sum.split)

text \<open>
  Adding a list of children succeeds exactly when the ids are new and different from
  each other.
\<close>

lemma forEach_addChild_new:
  "distinct ids \<Longrightarrow> set ids \<inter> set children = {}
     \<Longrightarrow> forEach addChild ids children = Inr (children @ ids)"
  by (induction ids arbitrary: children) (auto simp: addChild_def)

lemma forEach_addChild_taken:
  "\<not> (distinct ids \<and> set ids \<inter> set children = {})
     \<Longrightarrow> \<exists>i \<in> set ids. forEach addChild ids children = Inl (DuplicateConstruct i)"
proof (induction ids arbitrary: children)
  case Nil
  then show ?case by simp
next
  case (Cons i ids)
  show ?case
  proof (cases "i \<in> set children")
    case True
    then show ?thesis by (simp add: addChild_def)
  next
    case False
    with Cons.prems have "\<not> (distinct ids \<and> set ids \<inter> set (children @ [i]) = {})"
      by auto
    from Cons.IH [OF this] False show ?thesis
      by (auto simp: addChild_def)
  qed
qed

lemma forEach_logGroupChild:
  "forEach logGroupChild fns children
     = forEach addChild (map (\<lambda>fn. node_id fn @ ''LogGroup'') fns) children"
  by (induction fns arbitrary: children) (simp_all add: logGroupChild_def split: sum.split)

lemma forEach_alarmChildren:
  "forEach alarmChildren fns children
     = forEach addChild
         (concat (map (\<lambda>fn. [node_id fn @ ''ErrorAlarm'', node_id fn @ ''ThrottleAlarm'',
                               node_id fn @ ''DurationAlarm'']) fns)) children"
proof (induction fns arbitrary: children)
  case Nil
  then show ?case by simp
next
  case (Cons fn fns)
  have "alarmChildren fn children
      = forEach addChild [node_id fn @ ''ErrorAlarm'', node_id fn @ ''ThrottleAlarm'',
                          node_id fn @ ''DurationAlarm''] children" for children
    by (simp add: alarmChildren_def steps_def split: sum.split)
  then show ?case
    by (simp add: Cons.IH split: sum.split)
qed

text \<open>The ids of all children of the monitoring stack, in the order they are added.\<close>

lemma monitoringChildren_ids:
  "monitoringChildren fns
     = forEach addChild
         ([''AlarmTopic'', ''Dashboard'']
          @ map (\<lambda>fn. node_id fn @ ''LogGroup'') fns
          @ concat (map (\<lambda>fn. [node_id fn @ ''ErrorAlarm'', node_id fn @ ''ThrottleAlarm'',
                                node_id fn @ ''DurationAlarm'']) fns)
          @ [''AlarmTopicArn'', ''DashboardUrl'']) []"
  by (simp add: monitoringChildren_def steps_def forEach_append forEach_logGroupChild
      forEach_alarmChildren split: sum.split)

text \<open>
  Two ids with different endings are different, whatever stands before the endings: the
  endings here differ within their last six characters.
\<close>

lemma different_endings:
  assumes "take n (rev s) \<noteq> take n (rev t)" and "n \<le> length s" and "n \<le> length t"
  shows "x @ s \<noteq> y @ t"
proof
  assume "x @ s = y @ t"
  then have "take n (rev (x @ s)) = take n (rev (y @ t))" by simp
  with assms show False by simp
qed

lemma ending_kinds:
  "x @ ''LogGroup'' \<noteq> y @ ''ErrorAlarm''" "x @ ''LogGroup'' \<noteq> y @ ''ThrottleAlarm''"
  "x @ ''LogGroup'' \<noteq> y @ ''DurationAlarm''"
  "x @ ''ErrorAlarm'' \<noteq> y @ ''ThrottleAlarm''" "x @ ''ErrorAlarm'' \<noteq> y @ ''DurationAlarm''"
  "x @ ''ThrottleAlarm'' \<noteq> y @ ''ErrorAlarm''" "x @ ''ThrottleAlarm'' \<noteq> y @ ''DurationAlarm''"
  "x @ ''DurationAlarm'' \<noteq> y @ ''ErrorAlarm''" "x @ ''DurationAlarm'' \<noteq> y @ ''ThrottleAlarm''"
  by (rule different_endings [where n = 6], simp, simp, simp)+

lemma ending_fixed:
  "x @ ''LogGroup'' \<notin> {''AlarmTopic'', ''Dashboard'', ''AlarmTopicArn'', ''DashboardUrl''}"
  "x @ ''ErrorAlarm'' \<notin> {''AlarmTopic'', ''Dashboard'', ''AlarmTopicArn'', ''DashboardUrl''}"
  "x @ ''ThrottleAlarm'' \<notin> {''AlarmTopic'', ''Dashboard'', ''AlarmTopicArn'', ''DashboardUrl''}"
  "x @ ''DurationAlarm'' \<notin> {''AlarmTopic'', ''Dashboard'', ''AlarmTopicArn'', ''DashboardUrl''}"
  using different_endings [where n = 1 and y = "[]", of _ _ x]
  by (simp_all (no_asm_simp))

lemma ending_fixed_eq [simp]:
  "(x @ ''LogGroup'' = ''AlarmTopic'') = False" "(x @ ''LogGroup'' = ''Dashboard'') = False"
  "(x @ ''LogGroup'' = ''AlarmTopicArn'') = False" "(x @ ''LogGroup'' = ''DashboardUrl'') = False"
  "(x @ ''ErrorAlarm'' = ''AlarmTopic'') = False" "(x @ ''ErrorAlarm'' = ''Dashboard'') = False"
  "(x @ ''ErrorAlarm'' = ''AlarmTopicArn'') = False" "(x @ ''ErrorAlarm'' = ''DashboardUrl'') = False"
  "(x @ ''ThrottleAlarm'' = ''AlarmTopic'') = False" "(x @ ''ThrottleAlarm'' = ''Dashboard'') = False"
  "(x @ ''ThrottleAlarm'' = ''AlarmTopicArn'') = False"
  "(x @ ''ThrottleAlarm'' = ''DashboardUrl'') = False"
  "(x @ ''DurationAlarm'' = ''AlarmTopic'') = False" "(x @ ''DurationAlarm'' = ''Dashboard'') = False"
  "(x @ ''DurationAlarm'' = ''AlarmTopicArn'') = False"
  "(x @ ''DurationAlarm'' = ''DashboardUrl'') = False"
  using ending_fixed [of x] by simp_all

text \<open>
  The ids of the children are all different exactly when the node ids of the functions
  are.
\<close>

lemma distinct_monitoring_ids:
  "distinct ([''AlarmTopic'', ''Dashboard'']
             @ map (\<lambda>fn. node_id fn @ ''LogGroup'') fns
             @ concat (map (\<lambda>fn. [node_id fn @ ''ErrorAlarm'', node_id fn @ ''ThrottleAlarm'',
                                   node_id fn @ ''DurationAlarm'']) fns)
             @ [''AlarmTopicArn'', ''DashboardUrl''])
   = distinct (map node_id fns)"
proof -
  let ?L = "map (\<lambda>fn. node_id fn @ ''LogGroup'') fns"
  let ?C = "concat (map (\<lambda>fn. [node_id fn @ ''ErrorAlarm'', node_id fn @ ''ThrottleAlarm'',
                                   node_id fn @ ''DurationAlarm'']) fns)"
  have L: "distinct ?L = distinct (map node_id fns)"
    by (induction fns) auto
  have C: "distinct ?C = distinct (map node_id fns)"
    by (induction fns) (auto simp: ending_kinds)
  have LC: "set ?L \<inter> set ?C = {}"
    by (auto simp: ending_kinds)
  have F: "''AlarmTopic'' \<notin> set ?L" "''Dashboard'' \<notin> set ?L" "''AlarmTopicArn'' \<notin> set ?L"
    "''DashboardUrl'' \<notin> set ?L" "''AlarmTopic'' \<notin> set ?C" "''Dashboard'' \<notin> set ?C"
    "''AlarmTopicArn'' \<notin> set ?C" "''DashboardUrl'' \<notin> set ?C"
    by (auto dest: sym)
  from L C LC F show ?thesis
    by (simp add: Int_commute)
qed

text \<open>
  The constructor of the monitoring stack succeeds exactly when the functions passed
  have different node ids, and then leaves the declarations of \<open>newMonitoringStack\<close>.
\<close>

lemma constructMonitoringStack_distinct:
  assumes "distinct (map node_id fns)"
  shows "constructMonitoringStack id' config fns props
           = Inr (newMonitoringStack id' config fns props)"
proof -
  from assms have "\<exists>children. monitoringChildren fns = Inr children"
    unfolding monitoringChildren_ids
    by (subst forEach_addChild_new) (simp_all only: distinct_monitoring_ids, simp_all)
  then show ?thesis
    by (auto simp: constructMonitoringStack_def)
qed

lemma constructMonitoringStack_duplicate:
  assumes "\<not> distinct (map node_id fns)"
  shows "\<exists>i. constructMonitoringStack id' config fns props = Inl (DuplicateConstruct i)"
proof -
  from assms have "\<exists>i. monitoringChildren fns = Inl (DuplicateConstruct i)"
    unfolding monitoringChildren_ids
    using forEach_addChild_taken [of _ "[]"] distinct_monitoring_ids [of fns]
    by (metis (no_types, lifting))
  then show ?thesis
    by (auto simp: constructMonitoringStack_def)
qed

text \<open>The same function passed twice: the second log group cannot be added.\<close>

lemma constructMonitoringStack_twice:
  "constructMonitoringStack id' config [fn, fn] props
     = Inl (DuplicateConstruct (node_id fn @ ''LogGroup''))"
  by (simp add: constructMonitoringStack_def monitoringChildren_def steps_def logGroupChild_def
      addChild_def)

lemma constructMonitoringStack_Inr:
  assumes "constructMonitoringStack id' config fns props = Inr st"
  shows "st = newMonitoringStack id' config fns props" and "distinct (map node_id fns)"
proof -
  show d: "distinct (map node_id fns)"
    using assms constructMonitoringStack_duplicate [of fns id' config props] by auto
  from constructMonitoringStack_distinct [OF d, of id' config props] assms
  show "st = newMonitoringStack id' config fns props" by simp
qed

lemma alarm_ids_newMonitoringStack:
  "map alarm_id (alarms (newMonitoringStack id' config fns props))
     = concat (map (\<lambda>fn. [node_id fn @ ''ErrorAlarm'', node_id fn @ ''ThrottleAlarm'',
                           node_id fn @ ''DurationAlarm'']) fns)"
  by (simp add: alarms_newMonitoringStack map_concat comp_def errorAlarm_fields
      throttleAlarm_fields durationAlarm_fields)

lemma distinct_alarm_ids:
  "distinct (concat (map (\<lambda>fn. [node_id fn @ ''ErrorAlarm'', node_id fn @ ''ThrottleAlarm'',
                                 node_id fn @ ''DurationAlarm'']) fns))
   = distinct (map node_id fns)"
  by (induction fns) (auto simp: ending_kinds)

text \<open>
  C2. For every configuration the resolver returns and every list of functions with
  different node ids (the construct tree accepts no other list), the constructor of the
  monitoring stack succeeds, and for every function passed the stack declares three
  alarms, all with the alarm topic as their action, the comparison \<open>greater than
  threshold\<close> and two evaluation periods of five minutes: an error alarm (sum,
  threshold 10), a throttle alarm (sum, threshold 5) and a duration alarm (average)
  whose threshold is exactly 80% of the configured timeout in milliseconds, 24000 for
  the 30 seconds of development and 48000 for the 60 seconds of staging and
  production. The alarms of the function at position \<open>i\<close> stand at the positions
  \<open>3 i\<close>, \<open>3 i + 1\<close> and \<open>3 i + 2\<close>; there are no other alarms, and no two alarms
  share an id.
\<close>

theorem alarms_of_every_function:
  assumes "getEnvironmentConfig env = Own config"
      and "distinct (map node_id lambdaFunctions)"
      and "i < length lambdaFunctions"
  shows "\<exists>st. constructMonitoringStack id' config lambdaFunctions props = Inr st
           \<and> (let fn = lambdaFunctions ! i;
                   e = alarms st ! (3 * i);
                   t = alarms st ! (3 * i + 1);
                   d = alarms st ! (3 * i + 2);
                   notify = [SnsAction (topic_id (alarmTopic st))]
               in length (alarms st) = 3 * length lambdaFunctions
                \<and> distinct (map alarm_id (alarms st))
                \<and> alarm_id e = node_id fn @ ''ErrorAlarm''
                \<and> metric e = metricErrors fn ''Sum'' (Duration_minutes 5)
                \<and> comparisonOperator e = GREATER_THAN_THRESHOLD
                \<and> threshold e = 10 \<and> evaluationPeriods e = 2 \<and> alarmActions e = notify
                \<and> alarm_id t = node_id fn @ ''ThrottleAlarm''
                \<and> metric t = metricThrottles fn ''Sum'' (Duration_minutes 5)
                \<and> comparisonOperator t = GREATER_THAN_THRESHOLD
                \<and> threshold t = 5 \<and> evaluationPeriods t = 2 \<and> alarmActions t = notify
                \<and> alarm_id d = node_id fn @ ''DurationAlarm''
                \<and> metric d = metricDuration fn ''Average'' (Duration_minutes 5)
                \<and> comparisonOperator d = GREATER_THAN_THRESHOLD
                \<and> threshold d = 8 / 10 * (of_nat (timeout (lambda config)) * 1000)
                \<and> threshold d = (if environment config = ''development'' then 24000 else 48000)
                \<and> timeout (lambda config)
                    = (if environment config = ''development'' then 30 else 60)
                \<and> evaluationPeriods d = 2 \<and> alarmActions d = notify)"
proof -
  let ?st = "newMonitoringStack id' config lambdaFunctions props"
  note th = durationThreshold_resolved [OF assms(1)]
  have c: "constructMonitoringStack id' config lambdaFunctions props = Inr ?st"
    by (rule constructMonitoringStack_distinct [OF assms(2)])
  have ids: "distinct (map alarm_id (alarms ?st))"
    using assms(2) by (simp only: alarm_ids_newMonitoringStack distinct_alarm_ids)
  have d1: "threshold (durationAlarm config (newAlarmTopic config) (lambdaFunctions ! i))
      = 8 / 10 * (of_nat (timeout (lambda config)) * 1000)"
    by (simp only: durationAlarm_fields th(1))
  have d2: "threshold (durationAlarm config (newAlarmTopic config) (lambdaFunctions ! i))
      = (if environment config = ''development'' then 24000 else 48000)"
    by (simp only: durationAlarm_fields th(2))
  have "let fn = lambdaFunctions ! i;
            e = alarms ?st ! (3 * i);
            t = alarms ?st ! (3 * i + 1);
            d = alarms ?st ! (3 * i + 2);
            notify = [SnsAction (topic_id (alarmTopic ?st))]
        in length (alarms ?st) = 3 * length lambdaFunctions
         \<and> distinct (map alarm_id (alarms ?st))
         \<and> alarm_id e = node_id fn @ ''ErrorAlarm''
         \<and> metric e = metricErrors fn ''Sum'' (Duration_minutes 5)
         \<and> comparisonOperator e = GREATER_THAN_THRESHOLD
         \<and> threshold e = 10 \<and> evaluationPeriods e = 2 \<and> alarmActions e = notify
         \<and> alarm_id t = node_id fn @ ''ThrottleAlarm''
         \<and> metric t = metricThrottles fn ''Sum'' (Duration_minutes 5)
         \<and> comparisonOperator t = GREATER_THAN_THRESHOLD
         \<and> threshold t = 5 \<and> evaluationPeriods t = 2 \<and> alarmActions t = notify
         \<and> alarm_id d = node_id fn @ ''DurationAlarm''
         \<and> metric d = metricDuration fn ''Average'' (Duration_minutes 5)
         \<and> comparisonOperator d = GREATER_THAN_THRESHOLD
         \<and> threshold d = 8 / 10 * (of_nat (timeout (lambda config)) * 1000)
         \<and> threshold d = (if environment config = ''development'' then 24000 else 48000)
         \<and> timeout (lambda config)
             = (if environment config = ''development'' then 30 else 60)
         \<and> evaluationPeriods d = 2 \<and> alarmActions d = notify"
    using d1 d2 th(3) ids
    by (simp only: Let_def nth_alarms [OF assms(3)] length_alarms alarmTopic_newMonitoringStack
        errorAlarm_fields throttleAlarm_fields durationAlarm_fields)
  with c show ?thesis by (intro exI [of _ ?st] conjI)
qed

theorem alarms_of_every_function_witness:
  "getEnvironmentConfig ''development'' = Own development
   \<and> distinct (map node_id [\<lparr> node_id = ''UserProfileFunction'', functionName = ''user-profile'' \<rparr>])
   \<and> (0::nat) < length [\<lparr> node_id = ''UserProfileFunction'', functionName = ''user-profile'' \<rparr>]
   \<and> (\<exists>st. constructMonitoringStack ''Readafull-Dev-Monitoring'' development
               [\<lparr> node_id = ''UserProfileFunction'', functionName = ''user-profile'' \<rparr>] None
             = Inr st
         \<and> map (\<lambda>a. (alarm_id a, metricName (metric a), statistic (metric a), period (metric a),
                       comparisonOperator a, threshold a, evaluationPeriods a, alarmActions a))
              (alarms st)
           = [(''UserProfileFunctionErrorAlarm'', ''Errors'', ''Sum'', Duration_minutes 5,
                GREATER_THAN_THRESHOLD, 10, 2, [SnsAction ''AlarmTopic'']),
              (''UserProfileFunctionThrottleAlarm'', ''Throttles'', ''Sum'', Duration_minutes 5,
                GREATER_THAN_THRESHOLD, 5, 2, [SnsAction ''AlarmTopic'']),
              (''UserProfileFunctionDurationAlarm'', ''Duration'', ''Average'', Duration_minutes 5,
                GREATER_THAN_THRESHOLD, 24000, 2, [SnsAction ''AlarmTopic''])])"
proof -
  let ?fns = "[\<lparr> node_id = ''UserProfileFunction'', functionName = ''user-profile'' \<rparr>]"
  let ?st = "newMonitoringStack ''Readafull-Dev-Monitoring'' development ?fns None"
  have d: "distinct (map node_id ?fns)" by simp
  have i: "(0::nat) < length ?fns" by simp
  have c: "constructMonitoringStack ''Readafull-Dev-Monitoring'' development ?fns None = Inr ?st"
    by (rule constructMonitoringStack_distinct [OF d])
  from alarms_of_every_function [OF getEnvironmentConfig_development d i,
      of "''Readafull-Dev-Monitoring''" None, unfolded c]
  have *: "length (alarms ?st) = 3"
    "alarm_id (alarms ?st ! 0) = ''UserProfileFunctionErrorAlarm''"
    "metric (alarms ?st ! 0) = metricErrors (?fns ! 0) ''Sum'' (Duration_minutes 5)"
    "comparisonOperator (alarms ?st ! 0) = GREATER_THAN_THRESHOLD"
    "threshold (alarms ?st ! 0) = 10" "evaluationPeriods (alarms ?st ! 0) = 2"
    "alarmActions (alarms ?st ! 0) = [SnsAction ''AlarmTopic'']"
    "alarm_id (alarms ?st ! 1) = ''UserProfileFunctionThrottleAlarm''"
    "metric (alarms ?st ! 1) = metricThrottles (?fns ! 0) ''Sum'' (Duration_minutes 5)"
    "comparisonOperator (alarms ?st ! 1) = GREATER_THAN_THRESHOLD"
    "threshold (alarms ?st ! 1) = 5" "evaluationPeriods (alarms ?st ! 1) = 2"
    "alarmActions (alarms ?st ! 1) = [SnsAction ''AlarmTopic'']"
    "alarm_id (alarms ?st ! 2) = ''UserProfileFunctionDurationAlarm''"
    "metric (alarms ?st ! 2) = metricDuration (?fns ! 0) ''Average'' (Duration_minutes 5)"
    "comparisonOperator (alarms ?st ! 2) = GREATER_THAN_THRESHOLD"
    "threshold (alarms ?st ! 2) = 24000" "evaluationPeriods (alarms ?st ! 2) = 2"
    "alarmActions (alarms ?st ! 2) = [SnsAction ''AlarmTopic'']"
    by (simp_all add: Let_def alarmTopic_newMonitoringStack topic_id_newAlarmTopic
        numeral_2_eq_2)
  from *(1) obtain a b c where abc: "alarms ?st = [a, b, c]"
    by (auto simp: length_Suc_conv numeral_3_eq_3)
  have m: "map (\<lambda>a. (alarm_id a, metricName (metric a), statistic (metric a), period (metric a),
                  comparisonOperator a, threshold a, evaluationPeriods a, alarmActions a))
          (alarms ?st)
        = [(''UserProfileFunctionErrorAlarm'', ''Errors'', ''Sum'', Duration_minutes 5,
             GREATER_THAN_THRESHOLD, 10, 2, [SnsAction ''AlarmTopic'']),
           (''UserProfileFunctionThrottleAlarm'', ''Throttles'', ''Sum'', Duration_minutes 5,
             GREATER_THAN_THRESHOLD, 5, 2, [SnsAction ''AlarmTopic'']),
           (''UserProfileFunctionDurationAlarm'', ''Duration'', ''Average'', Duration_minutes 5,
             GREATER_THAN_THRESHOLD, 24000, 2, [SnsAction ''AlarmTopic''])]"
    using * unfolding abc by (simp add: lambdaMetric_fields)
  show ?thesis
    by (intro conjI exI [of _ ?st]) (rule getEnvironmentConfig_development d i c m)+
qed

text \<open>
  C9. Every alarm the monitoring stack declares treats missing data as not breaching.
\<close>

theorem alarms_treatMissingData:
  "\<forall>a \<in> set (alarms (newMonitoringStack id' config lambdaFunctions props)).
     treatMissingData a = NOT_BREACHING"
  by (auto simp: alarms_newMonitoringStack errorAlarm_fields throttleAlarm_fields
      durationAlarm_fields)

theorem alarms_treatMissingData_witness:
  "map treatMissingData
     (alarms (newMonitoringStack ''Readafull-Prod-Monitoring'' production
        [\<lparr> node_id = ''TranslationFunction'', functionName = ''translation'' \<rparr>] None))
   = [NOT_BREACHING, NOT_BREACHING, NOT_BREACHING]"
proof -
  let ?st = "newMonitoringStack ''Readafull-Prod-Monitoring'' production
        [\<lparr> node_id = ''TranslationFunction'', functionName = ''translation'' \<rparr>] None"
  have "length (alarms ?st) = 3"
    by (simp add: length_alarms)
  then obtain a b c where abc: "alarms ?st = [a, b, c]"
    by (auto simp: length_Suc_conv numeral_3_eq_3)
  from alarms_treatMissingData [of "''Readafull-Prod-Monitoring''" production
      "[\<lparr> node_id = ''TranslationFunction'', functionName = ''translation'' \<rparr>]" None]
  show ?thesis
    unfolding abc by simp
qed

section \<open>The entry point\<close>

lemma readafull_Own:
  assumes "getEnvironmentConfig (contextEnvironment context) = Own config"
  shows "readafull context = Inr \<lparr>
           app_stacks = [stackPrefix config @ ''-Auth'', stackPrefix config @ ''-Storage'',
                         stackPrefix config @ ''-Api'', stackPrefix config @ ''-Monitoring''],
           app_dependencies =
             [(stackPrefix config @ ''-Api'', stackPrefix config @ ''-Auth''),
              (stackPrefix config @ ''-Api'', stackPrefix config @ ''-Storage''),
              (stackPrefix config @ ''-Monitoring'', stackPrefix config @ ''-Api'')] \<rparr>"
  using assms by (simp add: readafull_def Let_def newStack_def addDependency_def)

text \<open>
  Every selector that is not the name of a member of \<open>Object.prototype\<close> resolves to a
  configuration record, so the entry point gets as far as the wiring.
\<close>

lemma contextEnvironment_resolves:
  assumes "contextEnvironment context \<notin> set ObjectPrototype"
  shows "\<exists>config. getEnvironmentConfig (contextEnvironment context) = Own config"
proof (cases "contextEnvironment context \<in> {''development'', ''staging'', ''production''}")
  case True
  then show ?thesis
    by (auto simp: getEnvironmentConfig_development getEnvironmentConfig_staging
        getEnvironmentConfig_production)
next
  case False
  with assms show ?thesis
    by (simp add: getEnvironmentConfig_fallback)
qed

text \<open>
  Three edges from an upper stack to a lower one, among four different stacks, contain
  no cycle: every edge leads to a stack of lower rank.
\<close>

lemma acyclic_wiring:
  fixes auth storage api' monitoring' :: string
  assumes "distinct [auth, storage, api', monitoring']"
  shows "acyclic {(api', auth), (api', storage), (monitoring', api')}"
proof -
  define rank :: "string \<Rightarrow> nat"
    where "rank s = (if s = monitoring' then 2 else if s = api' then 1 else 0)" for s
  have "{(api', auth), (api', storage), (monitoring', api')}\<inverse> \<subseteq> measure rank"
    using assms by (auto simp: rank_def)
  then have "wf ({(api', auth), (api', storage), (monitoring', api')}\<inverse>)"
    by (rule wf_subset [OF wf_measure])
  then have "acyclic ({(api', auth), (api', storage), (monitoring', api')}\<inverse>)"
    by (rule wf_acyclic)
  then show ?thesis
    by (simp only: acyclic_converse)
qed

text \<open>
  C8. Whenever the selector resolves to a configuration, the entry point creates the
  four stacks Auth, Storage, Api and Monitoring, and the dependencies it adds are
  exactly these: Auth and Storage depend on nothing, Api depends on Auth and on
  Storage, Monitoring depends on Api. The graph of these dependencies has no cycle.
\<close>

theorem stack_dependencies:
  assumes "getEnvironmentConfig (contextEnvironment context) = Own config"
  shows "\<exists>app. readafull context = Inr app
           \<and> (let auth = stackPrefix config @ ''-Auth'';
                   storage = stackPrefix config @ ''-Storage'';
                   api' = stackPrefix config @ ''-Api'';
                   monitoring' = stackPrefix config @ ''-Monitoring''
               in app_stacks app = [auth, storage, api', monitoring']
                \<and> distinct (app_stacks app)
                \<and> set (app_dependencies app)
                    = {(api', auth), (api', storage), (monitoring', api')}
                \<and> dependenciesOf app auth = {}
                \<and> dependenciesOf app storage = {}
                \<and> dependenciesOf app api' = {auth, storage}
                \<and> dependenciesOf app monitoring' = {api'}
                \<and> acyclic (set (app_dependencies app)))"
proof -
  let ?auth = "stackPrefix config @ ''-Auth''"
  let ?storage = "stackPrefix config @ ''-Storage''"
  let ?api = "stackPrefix config @ ''-Api''"
  let ?monitoring = "stackPrefix config @ ''-Monitoring''"
  let ?app = "\<lparr> app_stacks = [?auth, ?storage, ?api, ?monitoring],
                 app_dependencies = [(?api, ?auth), (?api, ?storage), (?monitoring, ?api)] \<rparr>"
  have d: "distinct [?auth, ?storage, ?api, ?monitoring]"
    by simp
  have "acyclic {(?api, ?auth), (?api, ?storage), (?monitoring, ?api)}"
    by (rule acyclic_wiring [OF d])
  then have a: "acyclic (set (app_dependencies ?app))"
    by simp
  have deps: "dependenciesOf ?app ?auth = {}" "dependenciesOf ?app ?storage = {}"
    "dependenciesOf ?app ?api = {?auth, ?storage}" "dependenciesOf ?app ?monitoring = {?api}"
    by (auto simp: dependenciesOf_def)
  have s: "set (app_dependencies ?app) = {(?api, ?auth), (?api, ?storage), (?monitoring, ?api)}"
    by simp
  have dist: "distinct (app_stacks ?app)"
    by simp
  have r: "readafull context = Inr ?app"
    by (rule readafull_Own [OF assms])
  show ?thesis
    unfolding Let_def
    by (rule exI [of _ ?app], intro conjI)
       (rule r, simp, rule dist, rule s, rule deps(1), rule deps(2), rule deps(3),
        rule deps(4), rule a)
qed

theorem stack_dependencies_witness:
  "getEnvironmentConfig (contextEnvironment (Some ''staging'')) = Own staging
   \<and> (\<exists>app. readafull (Some ''staging'') = Inr app
         \<and> app_stacks app = [''Readafull-Staging-Auth'', ''Readafull-Staging-Storage'',
                              ''Readafull-Staging-Api'', ''Readafull-Staging-Monitoring'']
         \<and> distinct (app_stacks app)
         \<and> set (app_dependencies app)
             = {(''Readafull-Staging-Api'', ''Readafull-Staging-Auth''),
                (''Readafull-Staging-Api'', ''Readafull-Staging-Storage''),
                (''Readafull-Staging-Monitoring'', ''Readafull-Staging-Api'')}
         \<and> dependenciesOf app ''Readafull-Staging-Auth'' = {}
         \<and> dependenciesOf app ''Readafull-Staging-Storage'' = {}
         \<and> dependenciesOf app ''Readafull-Staging-Api''
             = {''Readafull-Staging-Auth'', ''Readafull-Staging-Storage''}
         \<and> dependenciesOf app ''Readafull-Staging-Monitoring'' = {''Readafull-Staging-Api''}
         \<and> acyclic (set (app_dependencies app)))"
proof -
  have h: "getEnvironmentConfig (contextEnvironment (Some ''staging'')) = Own staging"
    by (simp add: contextEnvironment_def getEnvironmentConfig_staging)
  have p: "stackPrefix staging @ ''-Auth'' = ''Readafull-Staging-Auth''"
    "stackPrefix staging @ ''-Storage'' = ''Readafull-Staging-Storage''"
    "stackPrefix staging @ ''-Api'' = ''Readafull-Staging-Api''"
    "stackPrefix staging @ ''-Monitoring'' = ''Readafull-Staging-Monitoring''"
    by (simp_all add: staging_def)
  show ?thesis
    by (rule conjI, rule h) (rule stack_dependencies [OF h, unfolded Let_def p])
qed

text \<open>A selector that names a member of \<open>Object.prototype\<close> ends in a \<open>TypeError\<close>.\<close>

lemma readafull_constructor: "readafull (Some ''constructor'') = Inl (TypeError ''constructor'')"
  by (simp add: readafull_def contextEnvironment_def getEnvironmentConfig_inherited
      ObjectPrototype_def)

section \<open>The destroy script\<close>

subsection \<open>What \<open>read\<close> assigns\<close>

text \<open>
  A line without a backslash and without the two marker bytes is stored as it is, NUL
  bytes aside, and does not continue on the next line.
\<close>

lemma scan_plain:
  "set l \<inter> {backslash, CTLESC, CTLNUL} = {} \<Longrightarrow> scan l = (filter (\<lambda>c. c \<noteq> NUL) l, False)"
  by (induction l rule: scan.induct) (auto simp: store_def)

lemma firstWord_plain:
  "CTLESC \<notin> set s \<Longrightarrow>
     firstWord s = (takeWhile (\<lambda>c. \<not> ifsWhitespace c) s, dropWhile (\<lambda>c. \<not> ifsWhitespace c) s)"
  by (induction s rule: firstWord.induct) auto

lemma stripFrom_plain:
  "CTLESC \<notin> set s \<Longrightarrow> s \<noteq> [] \<Longrightarrow> \<not> ifsWhitespace (last s)
     \<Longrightarrow> stripFrom nxt s = dropWhile ifsWhitespace s"
  by (induction nxt s rule: stripFrom.induct) (auto split: if_splits)

lemma unquote_plain: "CTLESC \<notin> set s \<Longrightarrow> unquote s = s"
  by (induction s rule: unquote.induct) auto

lemma dequote_string_plain: "CTLESC \<notin> set s \<Longrightarrow> dequote_string s = s"
  by (simp add: dequote_string_def unquote_plain)

lemma dropWhile_all: "\<forall>x \<in> set xs. P x \<Longrightarrow> dropWhile P xs = []"
  by (induction xs) auto

lemma dropWhile_append_all: "\<forall>x \<in> set xs. P x \<Longrightarrow> dropWhile P (xs @ ys) = dropWhile P ys"
  by (induction xs) auto

lemma dropWhile_rev_last: "xs \<noteq> [] \<Longrightarrow> \<not> P (last xs) \<Longrightarrow> dropWhile P (rev xs) = rev xs"
  by (cases xs rule: rev_cases) simp_all

lemma dropWhile_Nil_all: "dropWhile P xs = [] \<Longrightarrow> \<forall>x \<in> set xs. P x"
  by (induction xs) (auto split: if_splits)

text \<open>
  On a string without markers and NUL bytes, the assignment drops the separators at
  both ends and nothing else.
\<close>

lemma assign_plain:
  assumes "CTLESC \<notin> set s0" and "NUL \<notin> set s0"
  shows "assign s0 = rev (dropWhile ifsWhitespace (rev (dropWhile ifsWhitespace s0)))"
proof -
  define s where "s = dropWhile ifsWhitespace s0"
  define w where "w = takeWhile (\<lambda>c. \<not> ifsWhitespace c) s"
  define r where "r = dropWhile (\<lambda>c. \<not> ifsWhitespace c) s"
  have c: "cstring s0 = s0"
    using assms(2) by (auto simp: cstring_def takeWhile_eq_all_conv)
  have e: "CTLESC \<notin> set s"
    using assms(1) by (auto simp: s_def dest: set_dropWhileD)
  have "firstWord s = (w, r)"
    unfolding w_def r_def by (rule firstWord_plain [OF e])
  then have a: "assign s0 =
      (if s = [] then []
       else if dropWhile ifsWhitespace r = [] then dequote_string w
       else dequote_string (strip_trailing_ifs_whitespace s))"
    unfolding assign_def c s_def [symmetric] Let_def by (simp only: prod.case)
  show ?thesis
  proof (cases "s = []")
    case True
    then show ?thesis
      unfolding a s_def [symmetric] by simp
  next
    case False
    then have h: "\<not> ifsWhitespace (hd s)"
      unfolding s_def by (rule hd_dropWhile)
    have wr: "s = w @ r" by (simp add: w_def r_def)
    have w: "w \<noteq> []"
      using False h unfolding w_def by (cases s) simp_all
    then have "last w \<in> set (takeWhile (\<lambda>c. \<not> ifsWhitespace c) s)"
      unfolding w_def by (rule last_in_set)
    then have lw: "\<not> ifsWhitespace (last w)"
      by (rule set_takeWhileD [THEN conjunct2])
    have ew: "CTLESC \<notin> set w" using e unfolding wr by simp
    have ls: "\<not> ifsWhitespace (last (rev s))"
      using False h by (simp add: last_rev)
    show ?thesis
    proof (cases "dropWhile ifsWhitespace r = []")
      case True
      then have "\<forall>c \<in> set r. ifsWhitespace c"
        by (rule dropWhile_Nil_all)
      then have "\<forall>c \<in> set (rev r). ifsWhitespace c"
        by (simp only: set_rev)
      then have "dropWhile ifsWhitespace (rev r @ rev w) = dropWhile ifsWhitespace (rev w)"
        by (rule dropWhile_append_all)
      also have "\<dots> = rev w"
        using w lw by (rule dropWhile_rev_last)
      finally have "rev (dropWhile ifsWhitespace (rev s)) = w"
        unfolding wr by simp
      moreover have "assign s0 = w"
        unfolding a using True False by (simp add: dequote_string_plain [OF ew])
      ultimately show ?thesis
        unfolding s_def [symmetric] by simp
    next
      case False
      have "stripFrom NUL (rev s) = dropWhile ifsWhitespace (rev s)"
        using e \<open>s \<noteq> []\<close> ls by (intro stripFrom_plain) simp_all
      then have st: "strip_trailing_ifs_whitespace s = rev (dropWhile ifsWhitespace (rev s))"
        by (simp only: strip_trailing_ifs_whitespace_def)
      have "CTLESC \<notin> set (rev (dropWhile ifsWhitespace (rev s)))"
        using e by (auto dest: set_dropWhileD)
      then have "dequote_string (rev (dropWhile ifsWhitespace (rev s)))
          = rev (dropWhile ifsWhitespace (rev s))"
        by (rule dequote_string_plain)
      then have "assign s0 = rev (dropWhile ifsWhitespace (rev s))"
        unfolding a st using False \<open>s \<noteq> []\<close> by (simp only: if_False)
      then show ?thesis
        unfolding s_def [symmetric] .
    qed
  qed
qed

text \<open>
  Dropping at both ends the elements that satisfy \<open>P\<close> gives \<open>v\<close> exactly when the list
  is \<open>v\<close> with such elements around it, and \<open>v\<close> neither begins nor ends with one.
\<close>

lemma strip_both_ends:
  "(rev (dropWhile P (rev (dropWhile P xs))) = v)
   = (\<exists>a b. xs = a @ v @ b \<and> (\<forall>c \<in> set a. P c) \<and> (\<forall>c \<in> set b. P c)
         \<and> (v = [] \<or> \<not> P (hd v) \<and> \<not> P (last v)))"
proof
  assume v: "rev (dropWhile P (rev (dropWhile P xs))) = v"
  define a where "a = takeWhile P xs"
  define m where "m = dropWhile P xs"
  define b where "b = rev (takeWhile P (rev m))"
  have "rev m = takeWhile P (rev m) @ dropWhile P (rev m)" by simp
  then have "m = rev (dropWhile P (rev m)) @ rev (takeWhile P (rev m))"
    by (metis rev_append rev_rev_ident)
  then have m: "m = v @ b" using v by (simp add: m_def b_def)
  have "xs = a @ m" by (simp add: a_def m_def)
  with m have xs: "xs = a @ v @ b" by simp
  have pa: "\<forall>c \<in> set a. P c" by (auto simp: a_def dest: set_takeWhileD)
  have pb: "\<forall>c \<in> set b. P c" by (auto simp: b_def dest: set_takeWhileD)
  have "\<not> P (hd v) \<and> \<not> P (last v)" if "v \<noteq> []"
  proof
    from that m have "m \<noteq> []" "hd v = hd m" by auto
    then show "\<not> P (hd v)" by (simp add: m_def hd_dropWhile)
    from that v have "dropWhile P (rev m) \<noteq> []" by (auto simp: m_def)
    then have "\<not> P (hd (dropWhile P (rev m)))" by (rule hd_dropWhile)
    moreover have "last v = hd (dropWhile P (rev m))"
      using v that by (metis m_def last_rev rev_rev_ident)
    ultimately show "\<not> P (last v)" by simp
  qed
  with xs pa pb show "\<exists>a b. xs = a @ v @ b \<and> (\<forall>c \<in> set a. P c) \<and> (\<forall>c \<in> set b. P c)
         \<and> (v = [] \<or> \<not> P (hd v) \<and> \<not> P (last v))" by blast
next
  assume "\<exists>a b. xs = a @ v @ b \<and> (\<forall>c \<in> set a. P c) \<and> (\<forall>c \<in> set b. P c)
         \<and> (v = [] \<or> \<not> P (hd v) \<and> \<not> P (last v))"
  then obtain a b where xs: "xs = a @ v @ b" and pa: "\<forall>c \<in> set a. P c"
    and pb: "\<forall>c \<in> set b. P c" and pv: "v = [] \<or> \<not> P (hd v) \<and> \<not> P (last v)" by blast
  show "rev (dropWhile P (rev (dropWhile P xs))) = v"
  proof (cases "v = []")
    case True
    with xs pa pb have "\<forall>x \<in> set xs. P x" by auto
    then have "dropWhile P xs = []" by (rule dropWhile_all)
    then show ?thesis unfolding True by (simp only: rev.simps dropWhile.simps)
  next
    case False
    with pv have h: "\<not> P (hd v)" and l: "\<not> P (last v)" by simp_all
    from False h pa have "dropWhile P xs = v @ b"
      unfolding xs by (cases v) (simp_all add: dropWhile_append_all)
    moreover from pb have "dropWhile P (rev b @ rev v) = dropWhile P (rev v)"
      by (intro dropWhile_append_all) simp
    moreover from False l have "dropWhile P (rev v) = rev v"
      by (rule dropWhile_rev_last)
    ultimately show ?thesis by simp
  qed
qed

text \<open>
  What \<open>read\<close> assigns for a line without a backslash and without the marker bytes:
  the line, NUL bytes aside, without the blanks and tabs at its two ends.
\<close>

lemma read_plain:
  assumes "set l \<inter> {backslash, CTLESC, CTLNUL, newline} = {}"
  shows "(read (l # ls) = Some v)
         = (\<exists>a b. filter (\<lambda>c. c \<noteq> NUL) l = a @ v @ b
              \<and> set a \<subseteq> {CHR '' '', tab} \<and> set b \<subseteq> {CHR '' '', tab}
              \<and> (v = [] \<or> hd v \<notin> {CHR '' '', tab} \<and> last v \<notin> {CHR '' '', tab}))"
proof -
  define f where "f = filter (\<lambda>c. c \<noteq> NUL) l"
  from assms have p: "set l \<inter> {backslash, CTLESC, CTLNUL} = {}" by auto
  have e: "CTLESC \<notin> set f" and n: "NUL \<notin> set f"
    using assms by (auto simp: f_def)
  have ws: "ifsWhitespace c = (c \<in> {CHR '' '', tab})" if "c \<in> set f" for c
    using that assms by (auto simp: f_def ifsWhitespace_def)
  have "read (l # ls) = Some (assign f)"
    by (simp add: read_def scan_plain [OF p] f_def)
  then have "(read (l # ls) = Some v)
      = (rev (dropWhile ifsWhitespace (rev (dropWhile ifsWhitespace f))) = v)"
    by (simp add: assign_plain [OF e n])
  also have "\<dots> = (\<exists>a b. f = a @ v @ b \<and> (\<forall>c \<in> set a. ifsWhitespace c)
        \<and> (\<forall>c \<in> set b. ifsWhitespace c)
        \<and> (v = [] \<or> \<not> ifsWhitespace (hd v) \<and> \<not> ifsWhitespace (last v)))"
    by (rule strip_both_ends)
  also have "\<dots> = (\<exists>a b. f = a @ v @ b
        \<and> set a \<subseteq> {CHR '' '', tab} \<and> set b \<subseteq> {CHR '' '', tab}
        \<and> (v = [] \<or> hd v \<notin> {CHR '' '', tab} \<and> last v \<notin> {CHR '' '', tab}))"
  proof (intro iff_exI conj_cong refl)
    fix a b
    assume f: "f = a @ v @ b"
    then have sub: "set a \<subseteq> set f" "set b \<subseteq> set f" "set v \<subseteq> set f" by auto
    show "(\<forall>c \<in> set a. ifsWhitespace c) = (set a \<subseteq> {CHR '' '', tab})"
      using sub(1) ws by blast
    show "(\<forall>c \<in> set b. ifsWhitespace c) = (set b \<subseteq> {CHR '' '', tab})"
      using sub(2) ws by blast
    show "(v = [] \<or> \<not> ifsWhitespace (hd v) \<and> \<not> ifsWhitespace (last v))
        = (v = [] \<or> hd v \<notin> {CHR '' '', tab} \<and> last v \<notin> {CHR '' '', tab})"
    proof (cases "v = []")
      case True
      then show ?thesis by simp
    next
      case False
      then have "hd v \<in> set f" "last v \<in> set f" using sub(3) by auto
      then show ?thesis using ws by blast
    qed
  qed
  finally show ?thesis unfolding f_def .
qed


subsection \<open>The script\<close>

lemma destroy_sh_read_fails:
  assumes "read stdin = None"
  shows "commands (fst (destroy_sh args tty stdin npm)) = []"
    and "snd (destroy_sh args tty stdin npm) = 1"
    and "Echo ''Destruction cancelled.'' \<notin> set (fst (destroy_sh args tty stdin npm))"
  using assms by (simp_all add: destroy_sh_def Let_def)

lemma destroy_sh_mismatch:
  assumes "read stdin = Some CONFIRM" and "CONFIRM \<noteq> ''destroy-'' @ environmentArg args"
  shows "commands (fst (destroy_sh args tty stdin npm)) = []"
    and "snd (destroy_sh args tty stdin npm) = 0"
    and "Echo ''Destruction cancelled.'' \<in> set (fst (destroy_sh args tty stdin npm))"
    and "last (fst (destroy_sh args tty stdin npm)) = Echo ''Destruction cancelled.''"
  using assms by (simp_all add: destroy_sh_def Let_def)

lemma destroy_sh_match:
  assumes "read stdin = Some (''destroy-'' @ environmentArg args)"
  shows "commands (fst (destroy_sh args tty stdin npm)) = [destroyCommand (environmentArg args)]"
    and "snd (destroy_sh args tty stdin npm) = npm"
    and "Echo ''Destruction cancelled.'' \<notin> set (fst (destroy_sh args tty stdin npm))"
  using assms by (simp_all add: destroy_sh_def Let_def)

lemma destroy_sh_by_read:
  "commands (fst (destroy_sh args tty stdin npm))
     = (if read stdin = Some (''destroy-'' @ environmentArg args)
        then [destroyCommand (environmentArg args)] else [])"
  "(Echo ''Destruction cancelled.'' \<in> set (fst (destroy_sh args tty stdin npm)))
     = (\<exists>CONFIRM. read stdin = Some CONFIRM \<and> CONFIRM \<noteq> ''destroy-'' @ environmentArg args)"
  "snd (destroy_sh args tty stdin npm)
     = (case read stdin of
          None \<Rightarrow> 1
        | Some CONFIRM \<Rightarrow> if CONFIRM = ''destroy-'' @ environmentArg args then npm else 0)"
proof -
  consider "read stdin = None"
    | "read stdin = Some (''destroy-'' @ environmentArg args)"
    | CONFIRM where "read stdin = Some CONFIRM" "CONFIRM \<noteq> ''destroy-'' @ environmentArg args"
    by (cases "read stdin") auto
  note cases = this
  show "commands (fst (destroy_sh args tty stdin npm))
     = (if read stdin = Some (''destroy-'' @ environmentArg args)
        then [destroyCommand (environmentArg args)] else [])"
    by (rule cases) (simp_all add: destroy_sh_read_fails destroy_sh_match destroy_sh_mismatch)
  show "(Echo ''Destruction cancelled.'' \<in> set (fst (destroy_sh args tty stdin npm)))
     = (\<exists>CONFIRM. read stdin = Some CONFIRM \<and> CONFIRM \<noteq> ''destroy-'' @ environmentArg args)"
    by (rule cases) (simp_all add: destroy_sh_read_fails destroy_sh_match destroy_sh_mismatch)
  show "snd (destroy_sh args tty stdin npm)
     = (case read stdin of
          None \<Rightarrow> 1
        | Some CONFIRM \<Rightarrow> if CONFIRM = ''destroy-'' @ environmentArg args then npm else 0)"
    by (rule cases) (simp_all add: destroy_sh_read_fails destroy_sh_match destroy_sh_mismatch)
qed





text \<open>
  Runs for production: the exact phrase destroys, and so does the phrase with a NUL
  byte or a backslash typed into it; the phrase with a capital letter is a
  cancellation, and input that has ended stops the script with status 1.
\<close>

lemma destroy_sh_exact_phrase:
  "commands (fst (destroy_sh [''production''] True [''destroy-production''] 0))
     = [''npm run cdk:destroy -- --all --context environment=production --force'']
   \<and> snd (destroy_sh [''production''] True [''destroy-production''] 0) = 0"
proof -
  have "read [''destroy-production''] = Some ''destroy-production''"
    unfolding read_plain [of "''destroy-production''" "[]", simplified backslash_def CTLESC_def
        CTLNUL_def newline_def, simplified]
    by (intro exI [of _ "[]"] conjI) (simp_all add: NUL_def tab_def)
  then have "read [''destroy-production'']
      = Some (''destroy-'' @ environmentArg [''production''])"
    by (simp add: environmentArg_def)
  from destroy_sh_match(1,2) [OF this, of True 0] show ?thesis
    by (simp add: environmentArg_def destroyCommand_def)
qed

lemma read_NUL:
  "read [''destroy-'' @ [NUL] @ ''production''] = Some ''destroy-production''"
proof -
  have p: "set (''destroy-'' @ [NUL] @ ''production'') \<inter> {backslash, CTLESC, CTLNUL, newline} = {}"
    by (simp add: NUL_def backslash_def CTLESC_def CTLNUL_def newline_def)
  show ?thesis
    unfolding read_plain [OF p]
    by (intro exI [of _ "[]"] conjI) (simp_all add: tab_def NUL_def)
qed

lemma read_backslash:
  "read [''destroy-'' @ [backslash] @ ''production''] = Some ''destroy-production''"
proof -
  have "scan (''destroy-'' @ [backslash] @ ''production'')
      = (''destroy-'' @ [CTLESC] @ ''production'', False)"
    by (simp add: store_def backslash_def NUL_def CTLESC_def CTLNUL_def)
  moreover have "assign (''destroy-'' @ [CTLESC] @ ''production'') = ''destroy-production''"
    by (simp add: assign_def cstring_def NUL_def ifsWhitespace_def tab_def newline_def
        dequote_string_def CTLESC_def)
  ultimately show ?thesis
    by (simp add: read_def)
qed

lemma destroy_sh_NUL:
  "commands (fst (destroy_sh [''production''] tty [''destroy-'' @ [NUL] @ ''production''] npm))
     = [destroyCommand ''production'']"
  using read_NUL by (simp add: destroy_sh_by_read(1) environmentArg_def)

lemma destroy_sh_backslash:
  "commands (fst (destroy_sh [''production''] tty [''destroy-'' @ [backslash] @ ''production''] npm))
     = [destroyCommand ''production'']"
  using read_backslash by (simp add: destroy_sh_by_read(1) environmentArg_def)

lemma destroy_sh_end_of_input:
  "destroy_sh args False [] npm = (fst (destroy_sh args False [] npm), 1)
   \<and> commands (fst (destroy_sh args False [] npm)) = []"
  by (simp add: destroy_sh_def Let_def read_def)

end
